theory Spec2Isabelle
  imports Main "HOL-Library.Sublist"
begin

section \<open>Python string operations used by the program\<close>

text \<open>
  A Python \<^verbatim>\<open>str\<close> is modelled as a \<^typ>\<open>string\<close>: one \<^typ>\<open>char\<close> per character of the
  Python string. The operations below are the built-in methods the source calls,
  written out as Python defines them.
\<close>

text \<open>\<^verbatim>\<open>sub in s\<close>: \<open>sub\<close> occurs in \<open>s\<close> as a contiguous run of characters.\<close>

fun contains :: "string \<Rightarrow> string \<Rightarrow> bool" where
  "contains sub [] = (sub = [])"
| "contains sub (c # cs) = (prefix sub (c # cs) \<or> contains sub cs)"

text \<open>
  \<^verbatim>\<open>s.replace(old, new)\<close>: every occurrence of \<open>old\<close> is replaced, scanning from the left
  and never overlapping. With an empty \<open>old\<close>, Python puts \<open>new\<close> before every
  character and at the end.
\<close>

function replace_from :: "string \<Rightarrow> string \<Rightarrow> string \<Rightarrow> string" where
  "replace_from old new [] = []"
| "replace_from old new (c # cs) =
     (if old \<noteq> [] \<and> prefix old (c # cs)
      then new @ replace_from old new (drop (length old) (c # cs))
      else c # replace_from old new cs)"
  by pat_completeness auto
termination
  by (relation "measure (\<lambda>(old, new, s). length s)") (auto simp: neq_Nil_conv)

definition replace :: "string \<Rightarrow> string \<Rightarrow> string \<Rightarrow> string" where
  "replace old new s =
     (if old = [] then new @ concat (map (\<lambda>c. c # new) s) else replace_from old new s)"

text \<open>
  \<^verbatim>\<open>str.isspace\<close> on one character, for the characters a \<^typ>\<open>char\<close> can hold (code
  points below 256): tab, line feed, vertical tab, form feed, carriage return, the
  four separators 28 to 31, space, next line (133) and no-break space (160).
\<close>

definition isspace :: "char \<Rightarrow> bool" where
  "isspace c \<longleftrightarrow> c \<in> set [CHR 0x09, CHR 0x0A, CHR 0x0B, CHR 0x0C, CHR 0x0D,
     CHR 0x1C, CHR 0x1D, CHR 0x1E, CHR 0x1F, CHR 0x20, CHR 0x85, CHR 0xA0]"

text \<open>\<^verbatim>\<open>s.strip()\<close>: whitespace is removed from both ends.\<close>

definition strip :: "string \<Rightarrow> string" where
  "strip s = rev (dropWhile isspace (rev (dropWhile isspace s)))"

text \<open>
  \<^verbatim>\<open>s[:n]\<close> for a Python integer \<open>n\<close>: the first \<open>n\<close> characters, and for a negative
  \<open>n\<close> everything but the last \<open>-n\<close> characters.
\<close>

definition slice_to :: "'a list \<Rightarrow> int \<Rightarrow> 'a list" where
  "slice_to xs n = (if 0 \<le> n then take (nat n) xs else take (length xs - nat (- n)) xs)"

text \<open>\<^verbatim>\<open>sep.join(xs)\<close>.\<close>

fun join :: "string \<Rightarrow> string list \<Rightarrow> string" where
  "join sep [] = []"
| "join sep [x] = x"
| "join sep (x # y # ys) = x @ sep @ join sep (y # ys)"

text \<open>
  A raised Python exception, carrying the text that \<^verbatim>\<open>str(e)\<close> gives. A computation that
  may raise returns \<open>exn + 'a\<close>, with \<open>Inl\<close> for the exception.
\<close>

datatype exn = Exception (message: string)

text \<open>
  \<^verbatim>\<open>s.split(sep, 1)\<close>: the text before the first occurrence of \<open>sep\<close> and the text after
  it, or the whole of \<open>s\<close> alone when \<open>sep\<close> does not occur. Python raises
  \<^verbatim>\<open>ValueError\<close> for an empty separator. \<open>acc\<close> holds, reversed, the characters passed
  so far.
\<close>

fun split_first :: "string \<Rightarrow> string \<Rightarrow> string \<Rightarrow> string list" where
  "split_first sep acc [] = [rev acc]"
| "split_first sep acc (c # cs) =
     (if prefix sep (c # cs) then [rev acc, drop (length sep) (c # cs)]
      else split_first sep (c # acc) cs)"

definition split1 :: "string \<Rightarrow> string \<Rightarrow> exn + string list" where
  "split1 sep s =
     (if sep = [] then Inl (Exception ''empty separator'') else Inr (split_first sep [] s))"

section \<open>models.py\<close>

record analyst =
  affiliation :: string
  name :: string
  role :: string
  description :: string

text \<open>The property \<^verbatim>\<open>Analyst.persona\<close>: four f-strings, concatenated.\<close>

definition persona :: "analyst \<Rightarrow> string" where
  "persona a =
     ''Name: '' @ name a @ ''\<newline>'' @
     ''Role: '' @ role a @ ''\<newline>'' @
     ''Affiliation: '' @ affiliation a @ ''\<newline>'' @
     ''Description: '' @ description a @ ''\<newline>''"

section \<open>utils.py\<close>

text \<open>
  \<^verbatim>\<open>sanitize_filename(filename, max_length=50)\<close>. The character test \<^verbatim>\<open>c.isalnum()\<close> is
  Python's Unicode table; it is a parameter here, so that the results hold for the
  real table whatever it says.
\<close>

definition sanitize_filename :: "(char \<Rightarrow> bool) \<Rightarrow> string \<Rightarrow> int \<Rightarrow> string" where
  "sanitize_filename isalnum filename max_length =
     (let safe_name = replace '' '' ''_'' filename;
          safe_name = filter (\<lambda>c. isalnum c \<or> c \<in> set [CHR ''_'', CHR ''-'']) safe_name
      in if int (length safe_name) > max_length
         then slice_to safe_name max_length
         else safe_name)"

text \<open>The table \<^verbatim>\<open>isalnum\<close> on ASCII: digits and the letters of both cases.\<close>

definition ascii_isalnum :: "char \<Rightarrow> bool" where
  "ascii_isalnum c \<longleftrightarrow>
     (let n = (of_char c :: nat)
      in (48 \<le> n \<and> n \<le> 57) \<or> (65 \<le> n \<and> n \<le> 90) \<or> (97 \<le> n \<and> n \<le> 122))"

section \<open>agents.py: the report compiler\<close>

text \<open>
  \<^verbatim>\<open>ReportWriter._compile_report\<close>. The tuple assignment
  \<^verbatim>\<open>content, sources = content.split("\n## Sources\n", 1)\<close> raises when the split gives
  one piece only, before anything is assigned; the bare \<^verbatim>\<open>except\<close> then leaves
  \<open>content\<close> as it was and \<open>sources\<close> unset.
\<close>

definition compile_report :: "string \<Rightarrow> string \<Rightarrow> string \<Rightarrow> string" where
  "compile_report introduction content conclusion =
     (let content = (if prefix ''## Insights'' content
                     then strip (replace ''## Insights'' [] content)
                     else content);
          (content, sources) =
             (if contains ''## Sources'' content
              then (case split1 ''\<newline>## Sources\<newline>'' content of
                      Inr [body, tail] \<Rightarrow> (body, Some tail)
                    | _ \<Rightarrow> (content, None))
              else (content, None));
          final_report = introduction @ ''\<newline>\<newline>---\<newline>\<newline>'' @ content @
                           ''\<newline>\<newline>---\<newline>\<newline>'' @ conclusion
      in case sources of
           Some tail \<Rightarrow> final_report @ ''\<newline>\<newline>## Sources\<newline>'' @ tail
         | None \<Rightarrow> final_report)"

text \<open>
  The report compiler as the specification words it, for comparison with the code: step
  (a) strips the leading heading \<^verbatim>\<open>## Insights\<close> and the surrounding whitespace, step (b)
  splits at the marker when it occurs, steps (c) and (d) assemble the text.
\<close>

definition compile_report_spec :: "string \<Rightarrow> string \<Rightarrow> string \<Rightarrow> string" where
  "compile_report_spec introduction content conclusion =
     (let content = (if prefix ''## Insights'' content
                     then strip (drop (length ''## Insights'') content)
                     else content);
          (content, sources) =
             (case split1 ''\<newline>## Sources\<newline>'' content of
                Inr [body, tail] \<Rightarrow> (body, Some tail)
              | _ \<Rightarrow> (content, None));
          final_report = introduction @ ''\<newline>\<newline>---\<newline>\<newline>'' @ content @
                           ''\<newline>\<newline>---\<newline>\<newline>'' @ conclusion
      in case sources of
           Some tail \<Rightarrow> final_report @ ''\<newline>\<newline>## Sources\<newline>'' @ tail
         | None \<Rightarrow> final_report)"

text \<open>The content after the clean-up step of \<^verbatim>\<open>_compile_report\<close>, as the code computes it.\<close>

abbreviation cleaned :: "string \<Rightarrow> string" where
  "cleaned content \<equiv>
     (if prefix ''## Insights'' content
      then strip (replace ''## Insights'' [] content) else content)"

section \<open>services.py and the prompt templates\<close>

text \<open>
  A chat message: \<^verbatim>\<open>SystemMessage\<close>, \<^verbatim>\<open>HumanMessage\<close> or \<^verbatim>\<open>AIMessage\<close>, with its
  \<^verbatim>\<open>content\<close> and its optional \<^verbatim>\<open>name\<close>.
\<close>

datatype msg_kind = System | Human | AI

record message =
  msg_kind :: msg_kind
  msg_content :: string
  msg_name :: "string option"

definition SystemMessage :: "string \<Rightarrow> message" where
  "SystemMessage c = \<lparr>msg_kind = System, msg_content = c, msg_name = None\<rparr>"

definition HumanMessage :: "string \<Rightarrow> message" where
  "HumanMessage c = \<lparr>msg_kind = Human, msg_content = c, msg_name = None\<rparr>"

text \<open>A search result is a dictionary from strings to strings.\<close>

type_synonym doc = "(string \<times> string) list"

text \<open>\<^verbatim>\<open>doc.get(key, default)\<close>.\<close>

definition dict_get :: "doc \<Rightarrow> string \<Rightarrow> string \<Rightarrow> string" where
  "dict_get d key dflt = (case map_of d key of Some v \<Rightarrow> v | None \<Rightarrow> dflt)"

text \<open>
  The hosted services are outside the program. Each is a function from the request to
  what the call gives: a value, or the exception it raises (a failed lazy construction
  of the client, a missing key and a network error are all exceptions of the call).
  \<^item> \<open>llm_invoke\<close> is \<^verbatim>\<open>LLMService.invoke\<close>, which re-raises whatever the model call raises;
  \<^item> \<open>query_llm_invoke\<close> is the model with structured output \<^verbatim>\<open>SearchQuery\<close>, giving the
    field \<^verbatim>\<open>search_query\<close>;
  \<^item> \<open>perspectives_llm_invoke\<close> is the model with structured output \<^verbatim>\<open>Perspectives\<close>,
    giving the field \<^verbatim>\<open>analysts\<close>;
  \<^item> \<open>search_tool_invoke\<close> is the search tool.
\<close>

record services =
  llm_invoke :: "message list \<Rightarrow> exn + message"
  query_llm_invoke :: "message list \<Rightarrow> exn + string"
  perspectives_llm_invoke :: "message list \<Rightarrow> exn + analyst list"
  search_tool_invoke :: "string \<Rightarrow> exn + doc list"

text \<open>
  \<^verbatim>\<open>PromptTemplates\<close> is declared in \<^verbatim>\<open>config.py\<close>, which is not among the sources. Each
  template enters as the function from its format arguments to the prompt text.
\<close>

record prompts =
  ANALYST_CREATION :: "string \<Rightarrow> int \<Rightarrow> string \<Rightarrow> string"
  INTERVIEW_QUESTION :: "string \<Rightarrow> string"
  SEARCH_QUERY_GENERATION :: string
  EXPERT_ANSWER :: "string \<Rightarrow> string \<Rightarrow> string"
  SECTION_WRITER :: "string \<Rightarrow> string"
  FINAL_REPORT_WRITER :: "string \<Rightarrow> string \<Rightarrow> string"
  INTRO_CONCLUSION_WRITER :: "string \<Rightarrow> string \<Rightarrow> string"

text \<open>
  \<^verbatim>\<open>SearchService.search\<close>: the tool is invoked inside \<^verbatim>\<open>try\<close>; any exception is logged and
  the empty list is returned.
\<close>

definition search :: "services \<Rightarrow> string \<Rightarrow> doc list" where
  "search S query =
     (case search_tool_invoke S query of
        Inr results \<Rightarrow> results
      | Inl e \<Rightarrow> [])"

text \<open>\<^verbatim>\<open>SearchService.format_search_results\<close>; \<open>CHR 0x22\<close> is the double quote.\<close>

definition format_search_results :: "doc list \<Rightarrow> string" where
  "format_search_results results =
     (if results = [] then []
      else join ''\<newline>\<newline>---\<newline>\<newline>''
             (map (\<lambda>doc. ''<Document href='' @ [CHR 0x22] @ dict_get doc ''url'' [] @
                          [CHR 0x22] @ ''/>\<newline>'' @ dict_get doc ''content'' [] @
                          ''\<newline></Document>'')
                  results))"

section \<open>agents.py: the interview agent\<close>

text \<open>
  The calls an interview issues, in order, each with what it was given and what it gave:
  the question, the search query, the search, the expert answer and the section.
\<close>

datatype call =
    QuestionCall "exn + message"
  | QueryCall "exn + string"
  | SearchCall string "doc list"
  | AnswerCall string "exn + message"
  | SectionCall "string list" "exn + string"

text \<open>\<^verbatim>\<open>InterviewAgent._generate_question\<close>: the reply is named "analyst".\<close>

definition generate_question ::
  "services \<Rightarrow> prompts \<Rightarrow> analyst \<Rightarrow> message list \<Rightarrow> exn + message" where
  "generate_question S P a messages =
     (case llm_invoke S (SystemMessage (INTERVIEW_QUESTION P (persona a)) # messages) of
        Inl e \<Rightarrow> Inl e
      | Inr question \<Rightarrow> Inr (question\<lparr>msg_name := Some ''analyst''\<rparr>))"

text \<open>\<^verbatim>\<open>InterviewAgent._generate_search_query\<close>.\<close>

definition generate_search_query ::
  "services \<Rightarrow> prompts \<Rightarrow> message list \<Rightarrow> exn + string" where
  "generate_search_query S P messages =
     query_llm_invoke S (SystemMessage (SEARCH_QUERY_GENERATION P) # messages)"

text \<open>\<^verbatim>\<open>InterviewAgent._generate_answer\<close>: the reply is named "expert".\<close>

definition generate_answer ::
  "services \<Rightarrow> prompts \<Rightarrow> analyst \<Rightarrow> message list \<Rightarrow> string \<Rightarrow> exn + message" where
  "generate_answer S P a messages context =
     (case llm_invoke S (SystemMessage (EXPERT_ANSWER P (persona a) context) # messages) of
        Inl e \<Rightarrow> Inl e
      | Inr answer \<Rightarrow> Inr (answer\<lparr>msg_name := Some ''expert''\<rparr>))"

text \<open>\<^verbatim>\<open>InterviewAgent._write_section\<close>.\<close>

definition write_section ::
  "services \<Rightarrow> prompts \<Rightarrow> analyst \<Rightarrow> string list \<Rightarrow> exn + string" where
  "write_section S P a context =
     (let all_context = join ''\<newline>\<newline>'' context
      in case llm_invoke S
                [SystemMessage (SECTION_WRITER P (description a)),
                 HumanMessage (''Use this source to write your section: '' @ all_context)] of
           Inl e \<Rightarrow> Inl e
         | Inr section \<Rightarrow> Inr (msg_content section))"

text \<open>Puts the calls already issued in front of the calls of what follows.\<close>

definition after :: "call list \<Rightarrow> call list \<times> 'r \<Rightarrow> call list \<times> 'r" where
  "after cs m = (cs @ fst m, snd m)"

text \<open>
  The loop \<^verbatim>\<open>for turn in range(max_turns)\<close> of \<^verbatim>\<open>conduct_interview\<close>, with the number of
  turns left, the message list and the context list. It gives the calls issued, and
  either the exception that left the loop or the two lists at its end. An exception of
  a call is not caught in \<^verbatim>\<open>conduct_interview\<close>: it leaves the loop and the function.
\<close>

fun interview_loop ::
  "services \<Rightarrow> prompts \<Rightarrow> analyst \<Rightarrow> nat \<Rightarrow> message list \<Rightarrow> string list \<Rightarrow>
     call list \<times> (exn + message list \<times> string list)" where
  "interview_loop S P a 0 messages context = ([], Inr (messages, context))"
| "interview_loop S P a (Suc n) messages context =
     (case generate_question S P a messages of
        Inl e \<Rightarrow> ([QuestionCall (Inl e)], Inl e)
      | Inr question \<Rightarrow>
          (let messages = messages @ [question]
           in if contains ''Thank you so much for your help'' (msg_content question)
              then ([QuestionCall (Inr question)], Inr (messages, context))
              else
                (case generate_search_query S P messages of
                   Inl e \<Rightarrow> ([QuestionCall (Inr question), QueryCall (Inl e)], Inl e)
                 | Inr search_query \<Rightarrow>
                     (let search_results = search S search_query;
                          formatted_results = format_search_results search_results
                      in if formatted_results \<noteq> []
                         then
                           (case generate_answer S P a messages formatted_results of
                              Inl e \<Rightarrow>
                                ([QuestionCall (Inr question), QueryCall (Inr search_query),
                                  SearchCall search_query search_results,
                                  AnswerCall formatted_results (Inl e)], Inl e)
                            | Inr answer \<Rightarrow>
                                after
                                  [QuestionCall (Inr question), QueryCall (Inr search_query),
                                   SearchCall search_query search_results,
                                   AnswerCall formatted_results (Inr answer)]
                                  (interview_loop S P a n (messages @ [answer])
                                     (context @ [formatted_results])))
                         else
                           after
                             [QuestionCall (Inr question), QueryCall (Inr search_query),
                              SearchCall search_query search_results]
                             (interview_loop S P a n messages context)))))"

text \<open>
  \<^verbatim>\<open>InterviewAgent.conduct_interview\<close>: \<^verbatim>\<open>range(max_turns)\<close> is empty for a \<open>max_turns\<close>
  below one. The first component lists the calls issued, the second is what the
  function returns or raises.
\<close>

definition conduct_interview ::
  "services \<Rightarrow> prompts \<Rightarrow> analyst \<Rightarrow> string \<Rightarrow> int \<Rightarrow> call list \<times> (exn + string)" where
  "conduct_interview S P a topic max_turns =
     (let messages = [HumanMessage (''So you said you were writing an article on '' @ topic @ ''?'')];
          context = []
      in case interview_loop S P a (nat max_turns) messages context of
           (calls, Inl e) \<Rightarrow> (calls, Inl e)
         | (calls, Inr (messages, context)) \<Rightarrow>
             (calls @ [SectionCall context (write_section S P a context)],
              write_section S P a context))"

text \<open>The context blocks that the calls of an interview have accumulated.\<close>

fun contexts_of :: "call list \<Rightarrow> string list" where
  "contexts_of [] = []"
| "contexts_of (AnswerCall formatted_results r # cs) = formatted_results # contexts_of cs"
| "contexts_of (c # cs) = contexts_of cs"


section \<open>agents.py: the analyst generator and the report writer\<close>

text \<open>
  \<^verbatim>\<open>AnalystGenerator.generate_analysts\<close>: the structured model is invoked inside \<^verbatim>\<open>try\<close>,
  and the handler logs and raises the exception again.
\<close>

definition generate_analysts ::
  "services \<Rightarrow> prompts \<Rightarrow> string \<Rightarrow> int \<Rightarrow> string \<Rightarrow> exn + analyst list" where
  "generate_analysts S P topic max_analysts human_feedback =
     perspectives_llm_invoke S
       [SystemMessage (ANALYST_CREATION P topic max_analysts human_feedback),
        HumanMessage ''Generate the set of analysts.'']"

text \<open>\<^verbatim>\<open>ReportWriter._generate_content\<close>; \<^verbatim>\<open>chr(10)\<close> is the newline.\<close>

definition generate_content :: "services \<Rightarrow> prompts \<Rightarrow> string list \<Rightarrow> string \<Rightarrow> exn + string" where
  "generate_content S P sections topic =
     (let sections_text = join ''\<newline>'' sections
      in case llm_invoke S
                [SystemMessage (FINAL_REPORT_WRITER P topic sections_text),
                 HumanMessage ''Write a report based upon these memos.''] of
           Inl e \<Rightarrow> Inl e
         | Inr content \<Rightarrow> Inr (msg_content content))"

text \<open>\<^verbatim>\<open>ReportWriter._generate_intro_conclusion\<close>.\<close>

definition generate_intro_conclusion ::
  "services \<Rightarrow> prompts \<Rightarrow> string list \<Rightarrow> string \<Rightarrow> string \<Rightarrow> exn + string" where
  "generate_intro_conclusion S P sections topic section_type =
     (let sections_text = join ''\<newline>'' sections;
          instruction = (if section_type = ''introduction''
                         then ''Write the report introduction''
                         else ''Write the report conclusion'')
      in case llm_invoke S
                [SystemMessage (INTRO_CONCLUSION_WRITER P topic sections_text),
                 HumanMessage instruction] of
           Inl e \<Rightarrow> Inl e
         | Inr result \<Rightarrow> Inr (msg_content result))"

text \<open>\<^verbatim>\<open>ReportWriter.write_report\<close>: content, introduction, conclusion, then the compiler.\<close>

definition write_report :: "services \<Rightarrow> prompts \<Rightarrow> string list \<Rightarrow> string \<Rightarrow> exn + string" where
  "write_report S P sections topic =
     (case generate_content S P sections topic of
        Inl e \<Rightarrow> Inl e
      | Inr content \<Rightarrow>
          (case generate_intro_conclusion S P sections topic ''introduction'' of
             Inl e \<Rightarrow> Inl e
           | Inr introduction \<Rightarrow>
               (case generate_intro_conclusion S P sections topic ''conclusion'' of
                  Inl e \<Rightarrow> Inl e
                | Inr conclusion \<Rightarrow> Inr (compile_report introduction content conclusion))))"

section \<open>backend.py: the workflow\<close>

text \<open>\<^verbatim>\<open>ResearchConfig\<close> and \<^verbatim>\<open>ResearchResults\<close> of models.py.\<close>

record research_config =
  config_topic :: string
  config_max_analysts :: int
  config_max_turns :: int
  config_human_feedback :: string

record research_results =
  results_topic :: string
  results_analysts :: "analyst list"
  results_sections :: "string list"
  results_final_report :: string
  results_introduction :: string
  results_content :: string
  results_conclusion :: string

text \<open>
  \<^verbatim>\<open>WorkflowCallbacks\<close>: every callback is optional. A callback is code of the caller: it
  returns, or it raises an exception.
\<close>

record workflow_callbacks =
  on_progress :: "(int \<Rightarrow> string \<Rightarrow> exn + unit) option"
  on_analyst_created :: "(analyst list \<Rightarrow> exn + unit) option"
  on_interview_complete :: "(string \<Rightarrow> string \<Rightarrow> exn + unit) option"
  on_section_complete :: "(string \<Rightarrow> exn + unit) option"
  on_error :: "(string \<Rightarrow> exn + unit) option"

text \<open>
  What the workflow delivers to the callbacks, in order: one notice for each call of a
  callback, with the arguments of the call, whether the callback returns or raises.
\<close>

datatype notice =
    Progress int string
  | AnalystCreated "analyst list"
  | InterviewComplete string string
  | SectionComplete string
  | WorkflowError string

type_synonym 'a traced = "notice list \<times> (exn + 'a)"

text \<open>One step after another: the second runs when the first has not raised.\<close>

definition then_do :: "'a traced \<Rightarrow> ('a \<Rightarrow> 'b traced) \<Rightarrow> 'b traced" where
  "then_do m f =
     (case m of
        (ns, Inl e) \<Rightarrow> (ns, Inl e)
      | (ns, Inr x) \<Rightarrow> (ns @ fst (f x), snd (f x)))"

text \<open>\<^verbatim>\<open>if callback: callback(...)\<close>, for a callback, the notice of the call and the call.\<close>

definition notify :: "'f option \<Rightarrow> notice \<Rightarrow> ('f \<Rightarrow> exn + unit) \<Rightarrow> unit traced" where
  "notify callback n call =
     (case callback of
        None \<Rightarrow> ([], Inr ())
      | Some f \<Rightarrow> ([n], call f))"

text \<open>\<^verbatim>\<open>ResearchWorkflow._update_progress\<close>.\<close>

definition update_progress :: "workflow_callbacks \<Rightarrow> int \<Rightarrow> string \<Rightarrow> unit traced" where
  "update_progress callbacks progress msg =
     notify (on_progress callbacks) (Progress progress msg) (\<lambda>f. f progress msg)"

text \<open>\<^verbatim>\<open>str(n)\<close> for a number that is not negative: its decimal digits.\<close>

function str_nat :: "nat \<Rightarrow> string" where
  "str_nat n =
     (if n < 10 then [char_of (48 + n)]
      else str_nat (n div 10) @ [char_of (48 + n mod 10)])"
  by pat_completeness auto

termination
  by (relation "measure (\<lambda>n. n)") auto

declare str_nat.simps [simp del]

text \<open>\<^verbatim>\<open>ResearchWorkflow._generate_analysts\<close>.\<close>

definition workflow_generate_analysts ::
  "services \<Rightarrow> prompts \<Rightarrow> research_config \<Rightarrow> workflow_callbacks \<Rightarrow> analyst list traced" where
  "workflow_generate_analysts S P config callbacks =
     (case generate_analysts S P (config_topic config) (config_max_analysts config)
             (config_human_feedback config) of
        Inl e \<Rightarrow> ([], Inl e)
      | Inr analysts \<Rightarrow>
          then_do (notify (on_analyst_created callbacks) (AnalystCreated analysts)
                     (\<lambda>f. f analysts))
            (\<lambda>u. ([], Inr analysts)))"

text \<open>The placeholder that stands for the section of a failed interview.\<close>

definition error_section :: "analyst \<Rightarrow> exn \<Rightarrow> string" where
  "error_section analyst e =
     ''## Error\<newline>Interview with '' @ name analyst @ '' failed: '' @ message e"

text \<open>
  The \<^verbatim>\<open>try\<close> body in the loop of \<^verbatim>\<open>ResearchWorkflow._conduct_interviews\<close>, for the analyst
  at index \<open>i\<close>: the notices, what the body has appended to \<^verbatim>\<open>sections\<close>, and the exception
  that left the body, if one did.
\<close>

definition try_interview ::
  "services \<Rightarrow> prompts \<Rightarrow> workflow_callbacks \<Rightarrow> string \<Rightarrow> int \<Rightarrow> nat \<Rightarrow> nat \<Rightarrow> analyst \<Rightarrow>
     notice list \<times> string list \<times> exn option" where
  "try_interview S P callbacks topic max_turns total_analysts i analyst =
     (let progress = 30 + (int i * 40) div int total_analysts
      in case update_progress callbacks progress
                (''Interviewing '' @ name analyst @ ''... ('' @ str_nat (i + 1) @ ''/'' @
                 str_nat total_analysts @ '')'') of
           (ns, Inl e) \<Rightarrow> (ns, [], Some e)
         | (ns, Inr u) \<Rightarrow>
             (case snd (conduct_interview S P analyst topic max_turns) of
                Inl e \<Rightarrow> (ns, [], Some e)
              | Inr section \<Rightarrow>
                  (case notify (on_interview_complete callbacks)
                          (InterviewComplete (name analyst) section)
                          (\<lambda>f. f (name analyst) section) of
                     (ns1, Inl e) \<Rightarrow> (ns @ ns1, [section], Some e)
                   | (ns1, Inr u) \<Rightarrow>
                       (case notify (on_section_complete callbacks) (SectionComplete section)
                               (\<lambda>f. f section) of
                          (ns2, Inl e) \<Rightarrow> (ns @ ns1 @ ns2, [section], Some e)
                        | (ns2, Inr u) \<Rightarrow> (ns @ ns1 @ ns2, [section], None)))))"

text \<open>
  One round of that loop: the \<^verbatim>\<open>try\<close> body, and the handler \<^verbatim>\<open>except Exception\<close>, which
  appends the placeholder.
\<close>

definition interview_round ::
  "services \<Rightarrow> prompts \<Rightarrow> workflow_callbacks \<Rightarrow> string \<Rightarrow> int \<Rightarrow> nat \<Rightarrow> nat \<Rightarrow> analyst \<Rightarrow>
     notice list \<times> string list" where
  "interview_round S P callbacks topic max_turns total_analysts i analyst =
     (case try_interview S P callbacks topic max_turns total_analysts i analyst of
        (ns, appended, None) \<Rightarrow> (ns, appended)
      | (ns, appended, Some e) \<Rightarrow> (ns, appended @ [error_section analyst e]))"

text \<open>The loop \<^verbatim>\<open>for i, analyst in enumerate(analysts)\<close>, from index \<open>i\<close> on.\<close>

fun conduct_interviews_from ::
  "services \<Rightarrow> prompts \<Rightarrow> workflow_callbacks \<Rightarrow> string \<Rightarrow> int \<Rightarrow> nat \<Rightarrow> nat \<Rightarrow> analyst list \<Rightarrow>
     notice list \<times> string list" where
  "conduct_interviews_from S P callbacks topic max_turns total_analysts i [] = ([], [])"
| "conduct_interviews_from S P callbacks topic max_turns total_analysts i (analyst # rest) =
     (let (ns, appended) =
            interview_round S P callbacks topic max_turns total_analysts i analyst;
          (ns', sections) =
            conduct_interviews_from S P callbacks topic max_turns total_analysts (Suc i) rest
      in (ns @ ns', appended @ sections))"

text \<open>
  \<^verbatim>\<open>ResearchWorkflow._conduct_interviews\<close>. Every exception is caught inside the loop, so
  the function returns.
\<close>

definition conduct_interviews ::
  "services \<Rightarrow> prompts \<Rightarrow> analyst list \<Rightarrow> string \<Rightarrow> int \<Rightarrow> workflow_callbacks \<Rightarrow>
     notice list \<times> string list" where
  "conduct_interviews S P analysts topic max_turns callbacks =
     conduct_interviews_from S P callbacks topic max_turns (length analysts) 0 analysts"

text \<open>\<^verbatim>\<open>[s for s in sections if s is not None]\<close>.\<close>

definition drop_unset :: "'a option list \<Rightarrow> 'a list" where
  "drop_unset sections = map the (filter (\<lambda>s. s \<noteq> None) sections)"

text \<open>
  One round of the loop \<^verbatim>\<open>for future in as_completed(future_to_index)\<close> of
  \<^verbatim>\<open>ParallelResearchWorkflow._conduct_interviews\<close>, for the future of the analyst at
  \<open>index\<close>: \<^verbatim>\<open>future.result()\<close> gives what the interview of that analyst returned or raises
  what it raised. The round gives the notices, the slots and the counter \<^verbatim>\<open>completed\<close>.
  When the \<^verbatim>\<open>try\<close> body raises after it has stored the section, the handler overwrites the
  slot with the placeholder and counts once more.
\<close>

definition completed_round ::
  "services \<Rightarrow> prompts \<Rightarrow> workflow_callbacks \<Rightarrow> string \<Rightarrow> int \<Rightarrow> analyst list \<Rightarrow> nat \<Rightarrow>
     string option list \<Rightarrow> nat \<Rightarrow> notice list \<times> string option list \<times> nat" where
  "completed_round S P callbacks topic max_turns analysts index sections completed =
     (let analyst = analysts ! index
      in case snd (conduct_interview S P analyst topic max_turns) of
           Inl e \<Rightarrow> ([], sections[index := Some (error_section analyst e)], completed + 1)
         | Inr section \<Rightarrow>
             (let sections = sections[index := Some section];
                  completed = completed + 1;
                  progress = 30 + (int completed * 40) div int (length analysts)
              in case then_do
                        (update_progress callbacks progress
                           (''Completed interview with '' @ name analyst @ '' ('' @
                            str_nat completed @ ''/'' @ str_nat (length analysts) @ '')''))
                        (\<lambda>u. notify (on_interview_complete callbacks)
                                (InterviewComplete (name analyst) section)
                                (\<lambda>f. f (name analyst) section)) of
                   (ns, Inl e) \<Rightarrow>
                     (ns, sections[index := Some (error_section analyst e)], completed + 1)
                 | (ns, Inr u) \<Rightarrow> (ns, sections, completed)))"

text \<open>
  That loop over the futures in the order in which they complete, given as the list of
  their indices. The indices come from \<^verbatim>\<open>future_to_index\<close>, which holds each index below
  \<^verbatim>\<open>len(analysts)\<close> once; for an index outside the list, \<^verbatim>\<open>analysts[index]\<close> raises
  outside the \<^verbatim>\<open>try\<close>.
\<close>

fun process_completed ::
  "services \<Rightarrow> prompts \<Rightarrow> workflow_callbacks \<Rightarrow> string \<Rightarrow> int \<Rightarrow> analyst list \<Rightarrow> nat list \<Rightarrow>
     string option list \<Rightarrow> nat \<Rightarrow> notice list \<times> (exn + string option list)" where
  "process_completed S P callbacks topic max_turns analysts [] sections completed =
     ([], Inr sections)"
| "process_completed S P callbacks topic max_turns analysts (index # order) sections completed =
     (if index < length analysts
      then
        (case completed_round S P callbacks topic max_turns analysts index sections completed of
           (ns, sections, completed) \<Rightarrow>
             (case process_completed S P callbacks topic max_turns analysts order sections
                     completed of
                (ns', r) \<Rightarrow> (ns @ ns', r)))
      else ([], Inl (Exception ''list index out of range'')))"

text \<open>
  \<^verbatim>\<open>ParallelResearchWorkflow._conduct_interviews\<close>, for the order in which the interviews
  complete: the slots start unset, and the unset ones are dropped at the end.
\<close>

definition parallel_conduct_interviews ::
  "nat list \<Rightarrow> services \<Rightarrow> prompts \<Rightarrow> analyst list \<Rightarrow> string \<Rightarrow> int \<Rightarrow> workflow_callbacks \<Rightarrow>
     string list traced" where
  "parallel_conduct_interviews order S P analysts topic max_turns callbacks =
     (case process_completed S P callbacks topic max_turns analysts order
             (replicate (length analysts) None) 0 of
        (ns, Inl e) \<Rightarrow> (ns, Inl e)
      | (ns, Inr sections) \<Rightarrow> (ns, Inr (drop_unset sections)))"

text \<open>\<^verbatim>\<open>ResearchWorkflow._generate_report\<close>.\<close>

definition generate_report ::
  "services \<Rightarrow> prompts \<Rightarrow> string list \<Rightarrow> string \<Rightarrow> workflow_callbacks \<Rightarrow> string traced" where
  "generate_report S P sections topic callbacks = ([], write_report S P sections topic)"

text \<open>
  The \<^verbatim>\<open>try\<close> body of \<^verbatim>\<open>ResearchWorkflow.run_research\<close>, with the method
  \<^verbatim>\<open>_conduct_interviews\<close> of the workflow object as a parameter: the parallel workflow
  inherits \<^verbatim>\<open>run_research\<close> and overrides that method only.
\<close>

definition research_steps ::
  "(analyst list \<Rightarrow> string \<Rightarrow> int \<Rightarrow> workflow_callbacks \<Rightarrow> string list traced) \<Rightarrow>
     services \<Rightarrow> prompts \<Rightarrow> research_config \<Rightarrow> workflow_callbacks \<Rightarrow> research_results traced" where
  "research_steps interviews S P config callbacks =
     then_do (update_progress callbacks 10 ''Generating research analysts...'') (\<lambda>u.
     then_do (workflow_generate_analysts S P config callbacks) (\<lambda>analysts.
     then_do (update_progress callbacks 25
                (''Generated '' @ str_nat (length analysts) @ '' analysts'')) (\<lambda>u.
     then_do (update_progress callbacks 30 ''Starting research interviews...'') (\<lambda>u.
     then_do (interviews analysts (config_topic config) (config_max_turns config) callbacks)
       (\<lambda>sections.
     then_do (update_progress callbacks 70 ''All interviews completed'') (\<lambda>u.
     then_do (update_progress callbacks 85 ''Generating final report...'') (\<lambda>u.
     then_do (generate_report S P sections (config_topic config) callbacks) (\<lambda>final_report.
     then_do (update_progress callbacks 100 ''Research completed successfully!'') (\<lambda>u.
       ([], Inr \<lparr>results_topic = config_topic config,
                 results_analysts = analysts,
                 results_sections = sections,
                 results_final_report = final_report,
                 results_introduction = [],
                 results_content = [],
                 results_conclusion = []\<rparr>))))))))))"

text \<open>
  \<^verbatim>\<open>run_research\<close> as a whole: the handler reports the failure to \<^verbatim>\<open>on_error\<close> and raises
  the exception again; an exception of \<^verbatim>\<open>on_error\<close> itself takes its place.
\<close>

definition run_research_with ::
  "(analyst list \<Rightarrow> string \<Rightarrow> int \<Rightarrow> workflow_callbacks \<Rightarrow> string list traced) \<Rightarrow>
     services \<Rightarrow> prompts \<Rightarrow> research_config \<Rightarrow> workflow_callbacks \<Rightarrow> research_results traced" where
  "run_research_with interviews S P config callbacks =
     (case research_steps interviews S P config callbacks of
        (ns, Inr results) \<Rightarrow> (ns, Inr results)
      | (ns, Inl e) \<Rightarrow>
          (let error_msg = ''Workflow failed: '' @ message e
           in case notify (on_error callbacks) (WorkflowError error_msg) (\<lambda>f. f error_msg) of
                (ns', Inl e') \<Rightarrow> (ns @ ns', Inl e')
              | (ns', Inr u) \<Rightarrow> (ns @ ns', Inl e)))"


text \<open>
  \<^verbatim>\<open>ParallelResearchWorkflow.run_research\<close>, for the order in which the interviews
  complete.
\<close>

definition parallel_run_research ::
  "nat list \<Rightarrow> services \<Rightarrow> prompts \<Rightarrow> research_config \<Rightarrow> workflow_callbacks \<Rightarrow>
     research_results traced" where
  "parallel_run_research order S P config callbacks =
     run_research_with (parallel_conduct_interviews order S P) S P config callbacks"



section \<open>A concrete run to evaluate the definitions on\<close>

text \<open>
  Fixed services on which the theorems below are instantiated. The prompt templates are
  short tags; the section prompt carries the analyst's description. The model asks one
  question and then thanks the expert, answers "Plenty.", fails on the section prompt
  of an analyst whose description is "broken", and writes the section "## " followed by
  the description for any other analyst. The search tool finds one document.
\<close>

definition AIMessage :: "string \<Rightarrow> message" where
  "AIMessage c = \<lparr>msg_kind = AI, msg_content = c, msg_name = None\<rparr>"

definition demo_prompts :: prompts where
  "demo_prompts =
     \<lparr>ANALYST_CREATION = (\<lambda>topic max_analysts human_analyst_feedback. ''create''),
      INTERVIEW_QUESTION = (\<lambda>analyst_persona. ''ask''),
      SEARCH_QUERY_GENERATION = ''query'',
      EXPERT_ANSWER = (\<lambda>goals context. ''answer''),
      SECTION_WRITER = (\<lambda>analyst_description. ''section '' @ analyst_description),
      FINAL_REPORT_WRITER = (\<lambda>topic sections. ''report''),
      INTRO_CONCLUSION_WRITER = (\<lambda>topic sections. ''intro'')\<rparr>"

definition demo_llm :: "message list \<Rightarrow> exn + message" where
  "demo_llm messages =
     (case messages of
        [] \<Rightarrow> Inl (Exception ''no messages'')
      | system # rest \<Rightarrow>
          if msg_content system = ''ask''
          then (if length rest < 2 then Inr (AIMessage ''What is new?'')
                else Inr (AIMessage ''Thank you so much for your help!''))
          else if msg_content system = ''answer'' then Inr (AIMessage ''Plenty.'')
          else if msg_content system = ''section broken'' then Inl (Exception ''boom'')
          else if prefix ''section '' (msg_content system)
          then Inr (AIMessage (''## '' @ drop 8 (msg_content system)))
          else Inr (AIMessage ''Text.''))"

definition demo_services :: services where
  "demo_services =
     \<lparr>llm_invoke = demo_llm,
      query_llm_invoke = (\<lambda>messages. Inr ''news''),
      perspectives_llm_invoke = (\<lambda>messages. Inl (Exception ''no analysts'')),
      search_tool_invoke = (\<lambda>query. Inr [[(''url'', ''u''), (''content'', ''c'')]])\<rparr>"

text \<open>The same services with a search tool that raises on every query.\<close>

definition demo_services_search_down :: services where
  "demo_services_search_down =
     demo_services\<lparr>search_tool_invoke := (\<lambda>query. Inl (Exception ''down''))\<rparr>"

definition demo_analyst :: "string \<Rightarrow> string \<Rightarrow> analyst" where
  "demo_analyst n d = \<lparr>affiliation = ''Lab'', name = n, role = ''Analyst'', description = d\<rparr>"

text \<open>The messages and the formatted search result that occur in the interviews of that run.\<close>

definition demo_question :: message where
  "demo_question = \<lparr>msg_kind = AI, msg_content = ''What is new?'', msg_name = Some ''analyst''\<rparr>"

definition demo_thanks :: message where
  "demo_thanks = \<lparr>msg_kind = AI, msg_content = ''Thank you so much for your help!'',
                   msg_name = Some ''analyst''\<rparr>"

definition demo_answer :: message where
  "demo_answer = \<lparr>msg_kind = AI, msg_content = ''Plenty.'', msg_name = Some ''expert''\<rparr>"

definition demo_document :: string where
  "demo_document = ''<Document href='' @ [CHR 0x22] @ ''u'' @ [CHR 0x22] @ ''/>\<newline>c\<newline></Document>''"

text \<open>
  A team of two for the workflow: the interview of Ada gives the section "## AI", the
  interview of Bob raises "boom" when his section is written. Every report prompt is
  answered "Text.".
\<close>

definition demo_team :: services where
  "demo_team =
     demo_services\<lparr>perspectives_llm_invoke :=
       (\<lambda>messages. Inr [demo_analyst ''Ada'' ''AI'', demo_analyst ''Bob'' ''broken''])\<rparr>"

definition demo_config :: research_config where
  "demo_config =
     \<lparr>config_topic = ''T'', config_max_analysts = 2, config_max_turns = 2,
      config_human_feedback = []\<rparr>"

text \<open>Callbacks that are all present and return.\<close>

definition demo_callbacks :: workflow_callbacks where
  "demo_callbacks =
     \<lparr>on_progress = Some (\<lambda>progress msg. Inr ()),
      on_analyst_created = Some (\<lambda>analysts. Inr ()),
      on_interview_complete = Some (\<lambda>who section. Inr ()),
      on_section_complete = Some (\<lambda>section. Inr ()),
      on_error = Some (\<lambda>msg. Inr ())\<rparr>"

text \<open>The same callbacks, with an \<^verbatim>\<open>on_interview_complete\<close> that raises "ui" on every call.\<close>

definition demo_callbacks_raising :: workflow_callbacks where
  "demo_callbacks_raising =
     demo_callbacks\<lparr>on_interview_complete := Some (\<lambda>who section. Inl (Exception ''ui''))\<rparr>"

text \<open>What the workflow returns for that team.\<close>

definition demo_results :: research_results where
  "demo_results =
     \<lparr>results_topic = ''T'',
      results_analysts = [demo_analyst ''Ada'' ''AI'', demo_analyst ''Bob'' ''broken''],
      results_sections = [''## AI'', ''## Error\<newline>Interview with Bob failed: boom''],
      results_final_report = ''Text.\<newline>\<newline>---\<newline>\<newline>Text.\<newline>\<newline>---\<newline>\<newline>Text.'',
      results_introduction = [], results_content = [], results_conclusion = []\<rparr>"


section \<open>Facts about the string operations\<close>

lemma contains_iff_sublist: "contains sub s \<longleftrightarrow> sublist sub s"
  by (induction s) (auto simp: sublist_Cons_right)

lemma replace_char: "replace [a] [b] s = map (\<lambda>c. if c = a then b else c) s"
  unfolding replace_def by (induction s) auto

lemma sanitize_shape:
  "sanitize_filename isalnum filename m =
     (let s = filter (\<lambda>c. isalnum c \<or> c = CHR ''_'' \<or> c = CHR ''-'')
                (map (\<lambda>c. if c = CHR '' '' then CHR ''_'' else c) filename)
      in if int (length s) > m then slice_to s m else s)"
  by (simp add: sanitize_filename_def replace_char Let_def)

lemma sanitize_chars:
  "c \<in> set (sanitize_filename isalnum filename m) \<Longrightarrow>
     (isalnum c \<or> c = CHR ''_'' \<or> c = CHR ''-'') \<and> c \<noteq> CHR '' ''"
  by (auto simp: sanitize_shape Let_def slice_to_def split: if_splits dest!: in_set_takeD)

lemma sanitize_length:
  "0 \<le> m \<Longrightarrow> int (length (sanitize_filename isalnum filename m)) \<le> m"
  by (auto simp: sanitize_shape Let_def slice_to_def)

lemma sanitize_fixed:
  assumes "\<forall>c\<in>set s. (isalnum c \<or> c = CHR ''_'' \<or> c = CHR ''-'') \<and> c \<noteq> CHR '' ''"
    and "int (length s) \<le> m"
  shows "sanitize_filename isalnum s m = s"
proof -
  have "map (\<lambda>c. if c = CHR '' '' then CHR ''_'' else c) s = s"
    using assms(1) by (induction s) auto
  moreover have "filter (\<lambda>c. isalnum c \<or> c = CHR ''_'' \<or> c = CHR ''-'') s = s"
    using assms(1) by (induction s) auto
  ultimately show ?thesis
    using assms(2) by (simp add: sanitize_shape Let_def)
qed

section \<open>Facts about the split and the report compiler\<close>

lemma prefix_of_append_long:
  "prefix xs (ys @ zs) \<Longrightarrow> length xs \<le> length ys \<Longrightarrow> prefix xs ys"
  by (auto simp: prefix_append)

lemma prefix_sep_in_body:
  assumes "prefix sep (body @ sep @ tail)" "body \<noteq> []"
  shows "prefix sep (body @ butlast sep)"
proof (cases "sep = []")
  case True
  then show ?thesis by simp
next
  case False
  then have "body @ sep @ tail = (body @ butlast sep) @ (last sep # tail)"
    by (simp add: append_butlast_last_id [symmetric])
  moreover from assms(2) False have "length sep \<le> length (body @ butlast sep)"
    by (cases body) auto
  ultimately show ?thesis
    using assms(1) prefix_of_append_long by metis
qed

lemma split_first_absent:
  "\<not> sublist sep s \<Longrightarrow> split_first sep acc s = [rev acc @ s]"
  by (induction s arbitrary: acc) (auto simp: sublist_Cons_right)

lemma split_first_present:
  assumes "sep \<noteq> []"
  shows "\<not> sublist sep (body @ butlast sep) \<Longrightarrow>
         split_first sep acc (body @ sep @ tail) = [rev acc @ body, tail]"
proof (induction body arbitrary: acc)
  case Nil
  from assms obtain c cs where sep: "sep = c # cs" by (cases sep) auto
  then show ?case by simp
next
  case (Cons b bs)
  have np: "\<not> prefix sep ((b # bs) @ sep @ tail)"
  proof
    assume "prefix sep ((b # bs) @ sep @ tail)"
    then have "prefix sep ((b # bs) @ butlast sep)"
      by (rule prefix_sep_in_body) simp
    with Cons.prems show False by (auto simp: sublist_Cons_right)
  qed
  from Cons.prems have "\<not> sublist sep (bs @ butlast sep)"
    by (simp add: sublist_Cons_right)
  then have "split_first sep (b # acc) (bs @ sep @ tail) = [rev (b # acc) @ bs, tail]"
    by (rule Cons.IH)
  with np show ?case by simp
qed

lemma first_occurrence_exists:
  assumes "sep \<noteq> []"
  shows "sublist sep s \<Longrightarrow>
         \<exists>body tail. s = body @ sep @ tail \<and> \<not> sublist sep (body @ butlast sep)"
proof (induction s)
  case Nil
  with assms show ?case by simp
next
  case (Cons c cs)
  show ?case
  proof (cases "prefix sep (c # cs)")
    case True
    then obtain tail where "c # cs = [] @ sep @ tail" by (auto simp: prefix_def)
    moreover have "\<not> sublist sep ([] @ butlast sep)"
    proof
      assume "sublist sep ([] @ butlast sep)"
      then obtain ps ss where "butlast sep = ps @ sep @ ss"
        by (auto simp: sublist_def)
      then have "length (butlast sep) = length (ps @ sep @ ss)" by simp
      then have "length sep \<le> length (butlast sep)" by simp
      moreover from assms have "length (butlast sep) < length sep" by simp
      ultimately show False using leD by blast
    qed
    ultimately show ?thesis by blast
  next
    case False
    with Cons.prems have "sublist sep cs" by (simp add: sublist_Cons_right)
    then obtain body tail where bt: "cs = body @ sep @ tail"
      and first: "\<not> sublist sep (body @ butlast sep)"
      using Cons.IH by blast
    have "\<not> prefix sep ((c # body) @ butlast sep)"
    proof
      assume "prefix sep ((c # body) @ butlast sep)"
      moreover have "prefix ((c # body) @ butlast sep) (c # cs)"
      proof (rule prefixI)
        from assms have s: "butlast sep @ [last sep] = sep" by simp
        have "((c # body) @ butlast sep) @ (last sep # tail) =
              (c # body) @ (butlast sep @ [last sep]) @ tail" by simp
        also have "\<dots> = c # cs" unfolding s bt by simp
        finally show "c # cs = ((c # body) @ butlast sep) @ (last sep # tail)" by (rule sym)
      qed
      ultimately have "prefix sep (c # cs)" by (rule prefix_order.trans)
      with False show False ..
    qed
    with first have "\<not> sublist sep ((c # body) @ butlast sep)"
      by (simp add: sublist_Cons_right)
    moreover from bt have "c # cs = (c # body) @ sep @ tail" by simp
    ultimately show ?thesis by blast
  qed
qed

lemma sources_heading_in_marker:
  "sublist ''\<newline>## Sources\<newline>'' s \<Longrightarrow> contains ''## Sources'' s"
proof -
  assume "sublist ''\<newline>## Sources\<newline>'' s"
  moreover have "sublist ''## Sources'' ''\<newline>## Sources\<newline>''"
    unfolding contains_iff_sublist [symmetric] by simp
  ultimately have "sublist ''## Sources'' s" by (rule sublist_order.order.trans [rotated])
  then show ?thesis by (simp add: contains_iff_sublist)
qed

lemma compile_report_with_sources:
  assumes "(if prefix ''## Insights'' content
            then strip (replace ''## Insights'' [] content) else content)
           = body @ ''\<newline>## Sources\<newline>'' @ tail"
    and "\<not> sublist ''\<newline>## Sources\<newline>'' (body @ butlast ''\<newline>## Sources\<newline>'')"
  shows "compile_report introduction content conclusion =
           introduction @ ''\<newline>\<newline>---\<newline>\<newline>'' @ body @ ''\<newline>\<newline>---\<newline>\<newline>'' @ conclusion @
           ''\<newline>\<newline>## Sources\<newline>'' @ tail"
proof -
  have sp: "split_first ''\<newline>## Sources\<newline>'' [] (body @ ''\<newline>## Sources\<newline>'' @ tail) = [body, tail]"
    using split_first_present [OF _ assms(2), of "[]" tail] by simp
  have "contains ''## Sources'' (body @ ''\<newline>## Sources\<newline>'' @ tail)"
    by (rule sources_heading_in_marker) (rule sublist_appendI)
  with sp show ?thesis
    unfolding compile_report_def assms(1) Let_def split1_def by simp
qed

lemma compile_report_without_sources:
  assumes "\<not> sublist ''\<newline>## Sources\<newline>''
             (if prefix ''## Insights'' content
              then strip (replace ''## Insights'' [] content) else content)"
  shows "compile_report introduction content conclusion =
           introduction @ ''\<newline>\<newline>---\<newline>\<newline>'' @
           (if prefix ''## Insights'' content
            then strip (replace ''## Insights'' [] content) else content) @
           ''\<newline>\<newline>---\<newline>\<newline>'' @ conclusion"
proof -
  have sp: "split_first ''\<newline>## Sources\<newline>'' []
              (if prefix ''## Insights'' content
               then strip (replace ''## Insights'' [] content) else content)
            = [if prefix ''## Insights'' content
               then strip (replace ''## Insights'' [] content) else content]"
    using split_first_absent [OF assms, of "[]"] by simp
  show ?thesis
    unfolding compile_report_def Let_def split1_def sp by simp
qed

section \<open>Facts about the interview loop\<close>

lemma interview_loop_stops:
  "interview_loop S P a n messages context = (calls, r) \<Longrightarrow>
   calls = pre @ QuestionCall (Inr q) # rest \<Longrightarrow>
   contains ''Thank you so much for your help'' (msg_content q) \<Longrightarrow>
   rest = [] \<and> (\<exists>msgs. r = Inr (msgs, context @ contexts_of pre))"
proof (induction n arbitrary: messages "context" calls r pre)
  case 0
  then show ?case by simp
next
  case (Suc n)
  show ?case
  proof (cases "generate_question S P a messages")
    case (Inl e)
    with Suc.prems show ?thesis by (auto simp: append_eq_Cons_conv Cons_eq_append_conv)
  next
    case q0: (Inr question)
    show ?thesis
    proof (cases "contains ''Thank you so much for your help'' (msg_content question)")
      case True
      with Suc.prems q0 show ?thesis by (auto simp: append_eq_Cons_conv Cons_eq_append_conv)
    next
      case nostop: False
      show ?thesis
      proof (cases "generate_search_query S P (messages @ [question])")
        case (Inl e)
        with Suc.prems q0 nostop show ?thesis by (auto simp: append_eq_Cons_conv Cons_eq_append_conv)
      next
        case sq: (Inr search_query)
        show ?thesis
        proof (cases "format_search_results (search S search_query) = []")
          case True
          obtain calls' r' where rec:
            "interview_loop S P a n (messages @ [question]) context = (calls', r')"
            by (cases "interview_loop S P a n (messages @ [question]) context")
          from Suc.prems(1) q0 nostop sq True rec
          have calls: "calls = [QuestionCall (Inr question), QueryCall (Inr search_query),
                SearchCall search_query (search S search_query)] @ calls'" and r: "r = r'"
            by (auto simp: after_def Let_def)
          from calls Suc.prems(2,3) nostop obtain pre' where
            pre: "pre = [QuestionCall (Inr question), QueryCall (Inr search_query),
                SearchCall search_query (search S search_query)] @ pre'"
            and calls': "calls' = pre' @ QuestionCall (Inr q) # rest"
            by (auto simp: append_eq_Cons_conv Cons_eq_append_conv)
          from Suc.IH [OF rec calls' Suc.prems(3)] pre r show ?thesis by simp
        next
          case False
          show ?thesis
          proof (cases "generate_answer S P a (messages @ [question])
                          (format_search_results (search S search_query))")
            case (Inl e)
            with Suc.prems q0 nostop sq False show ?thesis
              by (auto simp: append_eq_Cons_conv Cons_eq_append_conv Let_def)
          next
            case ans: (Inr answer)
            obtain calls' r' where rec:
              "interview_loop S P a n (messages @ [question] @ [answer])
                 (context @ [format_search_results (search S search_query)]) = (calls', r')"
              by (cases "interview_loop S P a n (messages @ [question] @ [answer])
                 (context @ [format_search_results (search S search_query)])")
            from Suc.prems(1) q0 nostop sq False ans rec
            have calls: "calls = [QuestionCall (Inr question), QueryCall (Inr search_query),
                SearchCall search_query (search S search_query),
                AnswerCall (format_search_results (search S search_query)) (Inr answer)] @ calls'"
              and r: "r = r'"
              by (auto simp: after_def Let_def)
            from calls Suc.prems(2,3) nostop obtain pre' where
              pre: "pre = [QuestionCall (Inr question), QueryCall (Inr search_query),
                SearchCall search_query (search S search_query),
                AnswerCall (format_search_results (search S search_query)) (Inr answer)] @ pre'"
              and calls': "calls' = pre' @ QuestionCall (Inr q) # rest"
              by (auto simp: append_eq_Cons_conv Cons_eq_append_conv)
            from Suc.IH [OF rec calls' Suc.prems(3)] pre r show ?thesis by simp
          qed
        qed
      qed
    qed
  qed
qed





subsection \<open>The interview: auxiliary facts and the concrete run\<close>

lemmas demo_defs = demo_services_def demo_services_search_down_def demo_prompts_def demo_llm_def
  demo_analyst_def AIMessage_def HumanMessage_def SystemMessage_def
  demo_question_def demo_thanks_def demo_answer_def demo_document_def

lemmas interview_defs = conduct_interview_def generate_question_def generate_search_query_def
  generate_answer_def write_section_def search_def format_search_results_def dict_get_def
  after_def persona_def

lemma snoc_eq_append_Cons:
  "calls @ [x] = pre @ y # rest \<Longrightarrow> x \<noteq> y \<Longrightarrow>
   \<exists>rest'. rest = rest' @ [x] \<and> calls = pre @ y # rest'"
  by (cases rest rule: rev_cases) auto


lemma demo_interview:
  "conduct_interview demo_services demo_prompts (demo_analyst ''Ada'' ''AI'') ''T'' 5 =
     ([QuestionCall (Inr demo_question), QueryCall (Inr ''news''),
       SearchCall ''news'' [[(''url'', ''u''), (''content'', ''c'')]],
       AnswerCall demo_document (Inr demo_answer)] @
      QuestionCall (Inr demo_thanks) # [SectionCall [demo_document] (Inr ''## AI'')],
      Inr ''## AI'')"
  by (simp add: demo_defs interview_defs Let_def eval_nat_numeral)
subsection \<open>The interview as a whole\<close>




subsection \<open>The workflow: steps, notices and progress values\<close>


lemma then_do_Inr:
  assumes "snd (then_do m f) = Inr y"
  obtains x where "snd m = Inr x" and "snd (f x) = Inr y"
    and "fst (then_do m f) = fst m @ fst (f x)"
  using assms by (auto simp: then_do_def split: prod.splits sum.splits)







lemma conduct_interviews_from_sections:
  "snd (conduct_interviews_from S P callbacks topic max_turns total_analysts i analysts) =
     concat (map (\<lambda>(k, analyst). snd (interview_round S P callbacks topic max_turns total_analysts k analyst))
               (enumerate i analysts))"
  by (induction analysts arbitrary: i) (simp_all add: case_prod_beta Let_def)

lemma research_steps_returns:
  assumes "snd (research_steps interviews S P config callbacks) = Inr results"
  obtains analysts sections report where
    "snd (workflow_generate_analysts S P config callbacks) = Inr analysts"
    "snd (interviews analysts (config_topic config) (config_max_turns config) callbacks) =
       Inr sections"
    "write_report S P sections (config_topic config) = Inr report"
    "results = \<lparr>results_topic = config_topic config, results_analysts = analysts,
                results_sections = sections, results_final_report = report,
                results_introduction = [], results_content = [], results_conclusion = []\<rparr>"
    "fst (research_steps interviews S P config callbacks) =
       fst (update_progress callbacks 10 ''Generating research analysts...'') @
       fst (workflow_generate_analysts S P config callbacks) @
       fst (update_progress callbacks 25
              (''Generated '' @ str_nat (length analysts) @ '' analysts'')) @
       fst (update_progress callbacks 30 ''Starting research interviews...'') @
       fst (interviews analysts (config_topic config) (config_max_turns config) callbacks) @
       fst (update_progress callbacks 70 ''All interviews completed'') @
       fst (update_progress callbacks 85 ''Generating final report...'') @
       fst (update_progress callbacks 100 ''Research completed successfully!'')"
  using assms unfolding research_steps_def
  apply (elim then_do_Inr)
  apply (simp add: generate_report_def)
  done

lemma run_research_with_returns:
  assumes "snd (run_research_with interviews S P config callbacks) = Inr results"
  shows "run_research_with interviews S P config callbacks =
         research_steps interviews S P config callbacks"
  using assms
  by (auto simp: run_research_with_def Let_def split: prod.splits sum.splits)




subsection \<open>The workflow on the team of two\<close>

lemmas team_defs = demo_team_def demo_config_def demo_callbacks_def demo_callbacks_raising_def
  demo_results_def

lemma demo_team_interviews:
  "snd (conduct_interview demo_team demo_prompts (demo_analyst ''Ada'' ''AI'') ''T'' 2) =
     Inr ''## AI''"
  "snd (conduct_interview demo_team demo_prompts (demo_analyst ''Bob'' ''broken'') ''T'' 2) =
     Inl (Exception ''boom'')"
  by (simp_all add: team_defs demo_defs interview_defs Let_def eval_nat_numeral)

lemma demo_team_report:
  "write_report demo_team demo_prompts sections ''T'' =
     Inr ''Text.\<newline>\<newline>---\<newline>\<newline>Text.\<newline>\<newline>---\<newline>\<newline>Text.''"
  by (simp add: write_report_def generate_content_def generate_intro_conclusion_def
      compile_report_def team_defs demo_defs Let_def)

lemma demo_team_analysts:
  "generate_analysts demo_team demo_prompts ''T'' 2 [] =
     Inr [demo_analyst ''Ada'' ''AI'', demo_analyst ''Bob'' ''broken'']"
  by (simp add: generate_analysts_def team_defs demo_defs)

lemma demo_analyst_fields:
  "name (demo_analyst n d) = n" "description (demo_analyst n d) = d"
  by (simp_all add: demo_analyst_def)


lemma demo_callbacks_quiet:
  "\<forall>f progress msg. on_progress demo_callbacks = Some f \<longrightarrow> f progress msg = Inr ()"
  "\<forall>f who section. on_interview_complete demo_callbacks = Some f \<longrightarrow> f who section = Inr ()"
  "\<forall>f section. on_section_complete demo_callbacks = Some f \<longrightarrow> f section = Inr ()"
  "\<forall>f analysts. on_analyst_created demo_callbacks = Some f \<longrightarrow> f analysts = Inr ()"
  by (simp_all add: demo_callbacks_def)

lemma demo_callbacks_raising_progress:
  "\<forall>f progress msg. on_progress demo_callbacks_raising = Some f \<longrightarrow> f progress msg = Inr ()"
  by (simp add: demo_callbacks_raising_def demo_callbacks_def)

subsection \<open>The rounds of the sequential interview loop\<close>

lemma notify_returns:
  "\<forall>f. callback = Some f \<longrightarrow> call f = Inr () \<Longrightarrow> snd (notify callback n call) = Inr ()"
  by (simp add: notify_def split: option.splits)

lemma update_progress_returns:
  "\<forall>f progress msg. on_progress callbacks = Some f \<longrightarrow> f progress msg = Inr () \<Longrightarrow>
   snd (update_progress callbacks progress msg) = Inr ()"
  unfolding update_progress_def by (rule notify_returns) simp

text \<open>One round of the sequential loop appends one entry or two.\<close>

lemma interview_round_length:
  "length (snd (interview_round S P callbacks topic max_turns total_analysts i analyst)) \<in> {1, 2}"
  by (auto simp: interview_round_def try_interview_def Let_def
      split: prod.splits sum.splits option.splits)

lemma interview_round_single:
  assumes ic: "\<forall>f who section. on_interview_complete callbacks = Some f \<longrightarrow> f who section = Inr ()"
    and sc: "\<forall>f section. on_section_complete callbacks = Some f \<longrightarrow> f section = Inr ()"
  shows "\<exists>entry. snd (interview_round S P callbacks topic max_turns total_analysts i analyst) = [entry]
           \<and> ((\<exists>e. entry = error_section analyst e)
                \<or> snd (conduct_interview S P analyst topic max_turns) = Inr entry)"
proof -
  have ic': "snd (notify (on_interview_complete callbacks) n (\<lambda>f. f who s)) = Inr ()"
    for n who s
    by (rule notify_returns) (use ic in simp)
  have sc': "snd (notify (on_section_complete callbacks) n (\<lambda>f. f s)) = Inr ()"
    for n s
    by (rule notify_returns) (use sc in simp)
  show ?thesis
    by (auto simp: interview_round_def try_interview_def Let_def case_prod_unfold ic' sc'
        split: sum.splits)
qed

lemma interview_round_quiet:
  assumes progress: "\<forall>f progress msg. on_progress callbacks = Some f \<longrightarrow> f progress msg = Inr ()"
    and ic: "\<forall>f who section. on_interview_complete callbacks = Some f \<longrightarrow> f who section = Inr ()"
    and sc: "\<forall>f section. on_section_complete callbacks = Some f \<longrightarrow> f section = Inr ()"
  shows "snd (interview_round S P callbacks topic max_turns total_analysts i analyst) =
           [case snd (conduct_interview S P analyst topic max_turns) of
              Inl e \<Rightarrow> error_section analyst e
            | Inr section \<Rightarrow> section]"
proof -
  have p': "snd (update_progress callbacks p msg) = Inr ()" for p msg
    using progress by (rule update_progress_returns)
  have ic': "snd (notify (on_interview_complete callbacks) n (\<lambda>f. f who s)) = Inr ()"
    for n who s
    by (rule notify_returns) (use ic in simp)
  have sc': "snd (notify (on_section_complete callbacks) n (\<lambda>f. f s)) = Inr ()"
    for n s
    by (rule notify_returns) (use sc in simp)
  show ?thesis
    by (simp add: interview_round_def try_interview_def Let_def case_prod_unfold p' ic' sc'
        split: sum.splits)
qed

lemma interview_round_double:
  assumes progress: "\<forall>f progress msg. on_progress callbacks = Some f \<longrightarrow> f progress msg = Inr ()"
    and interview: "snd (conduct_interview S P analyst topic max_turns) = Inr section"
    and raises: "(\<exists>f. on_interview_complete callbacks = Some f \<and> f (name analyst) section = Inl e)
       \<or> ((\<forall>f. on_interview_complete callbacks = Some f \<longrightarrow> f (name analyst) section = Inr ())
           \<and> (\<exists>f. on_section_complete callbacks = Some f \<and> f section = Inl e))"
  shows "snd (interview_round S P callbacks topic max_turns total_analysts i analyst) =
           [section, error_section analyst e]"
proof -
  have p': "snd (update_progress callbacks p msg) = Inr ()" for p msg
    using progress by (rule update_progress_returns)
  from raises show ?thesis
  proof (elim disjE exE conjE)
    fix f
    assume "on_interview_complete callbacks = Some f" "f (name analyst) section = Inl e"
    then have "notify (on_interview_complete callbacks)
        (InterviewComplete (name analyst) section) (\<lambda>f. f (name analyst) section) =
        ([InterviewComplete (name analyst) section], Inl e)"
      by (simp add: notify_def)
    with interview show ?thesis
      by (simp add: interview_round_def try_interview_def Let_def case_prod_unfold p')
  next
    fix f
    assume "\<forall>f. on_interview_complete callbacks = Some f \<longrightarrow> f (name analyst) section = Inr ()"
    then have ic': "snd (notify (on_interview_complete callbacks)
        (InterviewComplete (name analyst) section) (\<lambda>f. f (name analyst) section)) = Inr ()"
      by (rule notify_returns)
    assume "on_section_complete callbacks = Some f" "f section = Inl e"
    then have "notify (on_section_complete callbacks) (SectionComplete section)
        (\<lambda>f. f section) = ([SectionComplete section], Inl e)"
      by (simp add: notify_def)
    with interview ic' show ?thesis
      by (simp add: interview_round_def try_interview_def Let_def case_prod_unfold p')
  qed
qed

lemma enumerate_as_map: "enumerate i xs = map (\<lambda>k. (i + k, xs ! k)) [0..<length xs]"
  by (rule nth_equalityI) (simp_all add: nth_enumerate_eq)

lemma conduct_interviews_sections:
  "snd (conduct_interviews S P analysts topic max_turns callbacks) =
     concat (map (\<lambda>i. snd (interview_round S P callbacks topic max_turns (length analysts) i
                           (analysts ! i)))
               [0..<length analysts])"
  by (simp add: conduct_interviews_def conduct_interviews_from_sections enumerate_as_map
      comp_def)

lemma concat_singletons:
  assumes "\<forall>i<n. \<exists>x. f i = [x]"
  shows "length (concat (map f [0..<n])) = n
       \<and> (\<forall>i<n. f i = [concat (map f [0..<n]) ! i])"
proof -
  have "concat (map f [0..<n]) = map (\<lambda>i. hd (f i)) [0..<n]"
  proof -
    have "map f [0..<n] = map (\<lambda>i. [hd (f i)]) [0..<n]"
      using assms by (auto intro!: map_cong)
    then show ?thesis by (simp add: concat_map_singleton del: map_eq_conv)
  qed
  with assms show ?thesis by auto
qed

lemma concat_longer:
  assumes "\<forall>i<n. 1 \<le> length (f i)" and "k < n" and "2 \<le> length (f k)"
  shows "n < length (concat (map f [0..<n]))"
proof -
  have "length (concat (map f [0..<n])) = (\<Sum>i\<leftarrow>[0..<n]. length (f i))"
    by (simp add: length_concat comp_def)
  also have "\<dots> = (\<Sum>i<n. length (f i))"
    by (simp add: sum_list_sum_nth atLeast0LessThan)
  also have "\<dots> > (\<Sum>i<n. 1)"
  proof (rule sum_strict_mono_ex1)
    show "finite {..<n}" by simp
    show "\<forall>i\<in>{..<n}. 1 \<le> length (f i)" using assms(1) by simp
    show "\<exists>i\<in>{..<n}. 1 < length (f i)" using assms(2,3) by force
  qed
  finally show ?thesis by simp
qed

lemma map_via_nth: "map (\<lambda>i. g (xs ! i)) [0..<length xs] = map g xs"
  by (rule nth_equalityI) simp_all

lemma interview_round_nonempty:
  "1 \<le> length (snd (interview_round S P callbacks topic max_turns total_analysts i analyst))"
  using interview_round_length [of S P callbacks topic max_turns total_analysts i analyst]
  by auto

subsection \<open>The slots of the parallel interview loop\<close>

lemma drop_unset_all_set:
  assumes "\<forall>i<length xs. xs ! i \<noteq> None"
  shows "drop_unset xs = map the xs"
proof -
  from assms have "\<forall>x\<in>set xs. x \<noteq> None"
    by (auto simp: in_set_conv_nth)
  then have "filter (\<lambda>s. s \<noteq> None) xs = xs"
    by (simp add: filter_id_conv)
  then show ?thesis by (simp add: drop_unset_def)
qed

lemma completed_round_slot:
  "\<exists>x. ((\<exists>e. x = error_section (analysts ! index) e)
          \<or> snd (conduct_interview S P (analysts ! index) topic max_turns) = Inr x)
     \<and> fst (snd (completed_round S P callbacks topic max_turns analysts index sections
                   completed)) = sections[index := Some x]"
  by (auto simp: completed_round_def Let_def case_prod_unfold split: sum.splits)

lemma completed_round_quiet:
  assumes progress: "\<forall>f progress msg. on_progress callbacks = Some f \<longrightarrow> f progress msg = Inr ()"
    and ic: "\<forall>f who section. on_interview_complete callbacks = Some f \<longrightarrow> f who section = Inr ()"
  shows "fst (snd (completed_round S P callbacks topic max_turns analysts index sections
                     completed)) =
           sections[index := Some (case snd (conduct_interview S P (analysts ! index) topic
                                               max_turns) of
                                     Inl e \<Rightarrow> error_section (analysts ! index) e
                                   | Inr section \<Rightarrow> section)]"
proof -
  have p': "snd (update_progress callbacks p msg) = Inr ()" for p msg
    using progress by (rule update_progress_returns)
  have ic': "snd (notify (on_interview_complete callbacks) n (\<lambda>f. f who s)) = Inr ()"
    for n who s
    by (rule notify_returns) (use ic in simp)
  show ?thesis
    by (simp add: completed_round_def Let_def case_prod_unfold then_do_def p' ic'
        split: sum.splits)
qed

lemma process_completed_slots:
  assumes round: "\<And>index sections completed. index < length analysts \<Longrightarrow>
      \<exists>x. Q index x
        \<and> fst (snd (completed_round S P callbacks topic max_turns analysts index sections
                      completed)) = sections[index := Some x]"
    and range: "set order \<subseteq> {..<length analysts}"
  shows "\<exists>final.
           snd (process_completed S P callbacks topic max_turns analysts order sections
                  completed) = Inr final
           \<and> length final = length sections
           \<and> (\<forall>i<length sections.
                 if i \<in> set order then (\<exists>x. final ! i = Some x \<and> Q i x)
                 else final ! i = sections ! i)"
  using range
proof (induction order arbitrary: sections completed)
  case Nil
  show ?case by simp
next
  case (Cons index order)
  from Cons.prems have index: "index < length analysts" and rest: "set order \<subseteq> {..<length analysts}"
    by simp_all
  obtain ns sections' completed' where
    step: "completed_round S P callbacks topic max_turns analysts index sections completed =
      (ns, sections', completed')"
    by (cases "completed_round S P callbacks topic max_turns analysts index sections completed")
  from round [OF index, of sections completed] step
  obtain x where x: "Q index x" and sections': "sections' = sections[index := Some x]"
    by auto
  from Cons.IH [OF rest, of sections' completed']
  obtain final where
    final: "snd (process_completed S P callbacks topic max_turns analysts order sections'
                   completed') = Inr final"
    and len: "length final = length sections'"
    and slots: "\<forall>i<length sections'.
                 if i \<in> set order then (\<exists>x. final ! i = Some x \<and> Q i x)
                 else final ! i = sections' ! i"
    by blast
  have "snd (process_completed S P callbacks topic max_turns analysts (index # order) sections
               completed) = Inr final"
    using index step final by (simp add: case_prod_unfold)
  moreover have "length final = length sections"
    using len sections' by simp
  moreover have "\<forall>i<length sections.
                 if i \<in> set (index # order) then (\<exists>x. final ! i = Some x \<and> Q i x)
                 else final ! i = sections ! i"
  proof (intro allI impI)
    fix i
    assume i: "i < length sections"
    with slots sections' have
      at: "if i \<in> set order then (\<exists>x. final ! i = Some x \<and> Q i x)
           else final ! i = sections' ! i"
      by simp
    show "if i \<in> set (index # order) then (\<exists>x. final ! i = Some x \<and> Q i x)
          else final ! i = sections ! i"
    proof (cases "i \<in> set order")
      case True
      with at show ?thesis by simp
    next
      case False
      with at have same: "final ! i = sections' ! i" by simp
      show ?thesis
      proof (cases "i = index")
        case True
        with same sections' i x show ?thesis by simp
      next
        case False
        with same sections' \<open>i \<notin> set order\<close> show ?thesis by simp
      qed
    qed
  qed
  ultimately show ?case by blast
qed

lemma parallel_conduct_interviews_slots:
  assumes round: "\<And>index sections completed. index < length analysts \<Longrightarrow>
      \<exists>x. Q index x
        \<and> fst (snd (completed_round S P callbacks topic max_turns analysts index sections
                      completed)) = sections[index := Some x]"
    and every: "set order = {..<length analysts}"
  shows "\<exists>sections.
           snd (parallel_conduct_interviews order S P analysts topic max_turns callbacks) =
             Inr sections
           \<and> length sections = length analysts
           \<and> (\<forall>i<length analysts. Q i (sections ! i))"
proof -
  from every have range: "set order \<subseteq> {..<length analysts}" by simp
  from process_completed_slots [of analysts Q S P callbacks topic max_turns order
      "replicate (length analysts) None" 0, OF round range]
  obtain final where
    final: "snd (process_completed S P callbacks topic max_turns analysts order
                   (replicate (length analysts) None) 0) = Inr final"
    and len: "length final = length analysts"
    and slots: "\<forall>i<length analysts.
                 if i \<in> set order then (\<exists>x. final ! i = Some x \<and> Q i x)
                 else final ! i = replicate (length analysts) None ! i"
    by auto
  from slots every have filled: "\<forall>i<length analysts. \<exists>x. final ! i = Some x \<and> Q i x"
    by simp
  with len have "drop_unset final = map the final"
    by (intro drop_unset_all_set) auto
  with final have "snd (parallel_conduct_interviews order S P analysts topic max_turns callbacks) =
      Inr (map the final)"
    by (simp add: parallel_conduct_interviews_def case_prod_unfold)
  moreover have "length (map the final) = length analysts"
    using len by simp
  moreover have "\<forall>i<length analysts. Q i (map the final ! i)"
    using filled len by auto
  ultimately show ?thesis by blast
qed

subsection \<open>Aligned sections and whole runs\<close>

lemma parallel_conduct_interviews_aligned:
  assumes "set order = {..<length analysts}"
  shows "\<exists>sections.
           snd (parallel_conduct_interviews order S P analysts topic max_turns callbacks) =
             Inr sections
           \<and> length sections = length analysts
           \<and> (\<forall>i<length analysts.
                 (\<exists>e. sections ! i = error_section (analysts ! i) e)
                 \<or> snd (conduct_interview S P (analysts ! i) topic max_turns) =
                     Inr (sections ! i))"
  using completed_round_slot assms
  by (rule parallel_conduct_interviews_slots
      [where Q = "\<lambda>i x. (\<exists>e. x = error_section (analysts ! i) e)
                    \<or> snd (conduct_interview S P (analysts ! i) topic max_turns) = Inr x"])

lemma parallel_conduct_interviews_quiet:
  assumes progress: "\<forall>f progress msg. on_progress callbacks = Some f \<longrightarrow> f progress msg = Inr ()"
    and ic: "\<forall>f who section. on_interview_complete callbacks = Some f \<longrightarrow> f who section = Inr ()"
    and every: "set order = {..<length analysts}"
  shows "snd (parallel_conduct_interviews order S P analysts topic max_turns callbacks) =
           Inr (map (\<lambda>analyst. case snd (conduct_interview S P analyst topic max_turns) of
                                 Inl e \<Rightarrow> error_section analyst e
                               | Inr section \<Rightarrow> section)
                  analysts)"
proof -
  let ?entry = "\<lambda>analyst. case snd (conduct_interview S P analyst topic max_turns) of
                                 Inl e \<Rightarrow> error_section analyst e
                               | Inr section \<Rightarrow> section"
  have round: "\<exists>x. x = ?entry (analysts ! index)
        \<and> fst (snd (completed_round S P callbacks topic max_turns analysts index sections
                      completed)) = sections[index := Some x]"
    for index sections completed
    using completed_round_quiet [OF progress ic] by simp
  from parallel_conduct_interviews_slots
    [of analysts "\<lambda>i x. x = ?entry (analysts ! i)" S P callbacks topic max_turns order,
     OF round every]
  obtain sections where
    result: "snd (parallel_conduct_interviews order S P analysts topic max_turns callbacks) =
      Inr sections"
    and len: "length sections = length analysts"
    and entries: "\<forall>i<length analysts. sections ! i = ?entry (analysts ! i)"
    by blast
  from len entries have "sections = map ?entry analysts"
    by (intro nth_equalityI) simp_all
  with result show ?thesis by simp
qed

lemma research_steps_succeeds:
  assumes progress: "\<forall>f progress msg. on_progress callbacks = Some f \<longrightarrow> f progress msg = Inr ()"
    and created: "\<forall>f analysts. on_analyst_created callbacks = Some f \<longrightarrow> f analysts = Inr ()"
    and analysts: "generate_analysts S P (config_topic config) (config_max_analysts config)
                     (config_human_feedback config) = Inr analysts"
    and sections: "snd (interviews analysts (config_topic config) (config_max_turns config)
                          callbacks) = Inr sections"
    and report: "write_report S P sections (config_topic config) = Inr report"
  shows "snd (run_research_with interviews S P config callbacks) =
           Inr \<lparr>results_topic = config_topic config, results_analysts = analysts,
                results_sections = sections, results_final_report = report,
                results_introduction = [], results_content = [], results_conclusion = []\<rparr>"
proof -
  have p': "snd (update_progress callbacks p msg) = Inr ()" for p msg
    using progress by (rule update_progress_returns)
  have c': "snd (notify (on_analyst_created callbacks) n (\<lambda>f. f analysts)) = Inr ()" for n
    by (rule notify_returns) (use created in simp)
  have "snd (workflow_generate_analysts S P config callbacks) = Inr analysts"
    by (simp add: workflow_generate_analysts_def analysts then_do_def case_prod_unfold c')
  then have "snd (research_steps interviews S P config callbacks) =
           Inr \<lparr>results_topic = config_topic config, results_analysts = analysts,
                results_sections = sections, results_final_report = report,
                results_introduction = [], results_content = [], results_conclusion = []\<rparr>"
    by (simp add: research_steps_def then_do_def case_prod_unfold p' sections report
        generate_report_def)
  then show ?thesis
    by (simp add: run_research_with_def case_prod_unfold)
qed

lemma run_research_with_results:
  assumes "snd (run_research_with interviews S P config callbacks) = Inr results"
  shows "snd (interviews (results_analysts results) (config_topic config)
                (config_max_turns config) callbacks) = Inr (results_sections results)
       \<and> generate_analysts S P (config_topic config) (config_max_analysts config)
           (config_human_feedback config) = Inr (results_analysts results)
       \<and> write_report S P (results_sections results) (config_topic config) =
           Inr (results_final_report results)"
proof -
  from assms have "run_research_with interviews S P config callbacks =
      research_steps interviews S P config callbacks"
    by (rule run_research_with_returns)
  with assms have "snd (research_steps interviews S P config callbacks) = Inr results"
    by simp
  then show ?thesis
  proof (rule research_steps_returns)
    fix analysts sections report
    assume "snd (workflow_generate_analysts S P config callbacks) = Inr analysts"
    then have "generate_analysts S P (config_topic config) (config_max_analysts config)
           (config_human_feedback config) = Inr analysts"
      by (auto simp: workflow_generate_analysts_def then_do_def case_prod_unfold
          split: sum.splits)
    moreover assume "snd (interviews analysts (config_topic config) (config_max_turns config)
        callbacks) = Inr sections"
      and "write_report S P sections (config_topic config) = Inr report"
      and "results = \<lparr>results_topic = config_topic config, results_analysts = analysts,
                results_sections = sections, results_final_report = report,
                results_introduction = [], results_content = [], results_conclusion = []\<rparr>"
    ultimately show ?thesis by simp
  qed
qed


subsection \<open>The parallel workflow on the team of two\<close>

lemma demo_order: "set [1, 0] = {..<length [demo_analyst ''Ada'' ''AI'', demo_analyst ''Bob'' ''broken'']}"
  by auto

lemma demo_entries:
  "map (\<lambda>analyst. case snd (conduct_interview demo_team demo_prompts analyst ''T'' 2) of
                     Inl e \<Rightarrow> error_section analyst e
                   | Inr section \<Rightarrow> section)
     [demo_analyst ''Ada'' ''AI'', demo_analyst ''Bob'' ''broken''] =
   [''## AI'', ''## Error\<newline>Interview with Bob failed: boom'']"
  by (simp add: demo_team_interviews error_section_def demo_analyst_fields)

lemma demo_parallel_sections:
  "snd (parallel_conduct_interviews [1, 0] demo_team demo_prompts
          [demo_analyst ''Ada'' ''AI'', demo_analyst ''Bob'' ''broken''] ''T'' 2 demo_callbacks) =
     Inr [''## AI'', ''## Error\<newline>Interview with Bob failed: boom'']"
  using parallel_conduct_interviews_quiet
    [OF demo_callbacks_quiet(1) demo_callbacks_quiet(2) demo_order,
     of demo_team demo_prompts "''T''" 2]
  unfolding demo_entries .

lemma demo_parallel_run:
  "snd (parallel_run_research [1, 0] demo_team demo_prompts demo_config demo_callbacks) =
     Inr demo_results"
proof -
  have "snd (run_research_with (parallel_conduct_interviews [1, 0] demo_team demo_prompts)
          demo_team demo_prompts demo_config demo_callbacks) =
        Inr \<lparr>results_topic = config_topic demo_config,
             results_analysts = [demo_analyst ''Ada'' ''AI'', demo_analyst ''Bob'' ''broken''],
             results_sections = [''## AI'', ''## Error\<newline>Interview with Bob failed: boom''],
             results_final_report = ''Text.\<newline>\<newline>---\<newline>\<newline>Text.\<newline>\<newline>---\<newline>\<newline>Text.'',
             results_introduction = [], results_content = [], results_conclusion = []\<rparr>"
    using demo_callbacks_quiet(1) demo_callbacks_quiet(4)
  proof (rule research_steps_succeeds)
    show "generate_analysts demo_team demo_prompts (config_topic demo_config)
        (config_max_analysts demo_config) (config_human_feedback demo_config) =
        Inr [demo_analyst ''Ada'' ''AI'', demo_analyst ''Bob'' ''broken'']"
      by (simp add: demo_config_def demo_team_analysts)
    show "snd (parallel_conduct_interviews [1, 0] demo_team demo_prompts
        [demo_analyst ''Ada'' ''AI'', demo_analyst ''Bob'' ''broken'']
        (config_topic demo_config) (config_max_turns demo_config) demo_callbacks) =
        Inr [''## AI'', ''## Error\<newline>Interview with Bob failed: boom'']"
      using demo_parallel_sections by (simp add: demo_config_def)
    show "write_report demo_team demo_prompts
        [''## AI'', ''## Error\<newline>Interview with Bob failed: boom'']
        (config_topic demo_config) =
        Inr ''Text.\<newline>\<newline>---\<newline>\<newline>Text.\<newline>\<newline>---\<newline>\<newline>Text.''"
      by (simp add: demo_config_def demo_team_report)
  qed
  then show ?thesis
    by (simp add: parallel_run_research_def demo_results_def demo_config_def)
qed






section \<open>Persona rendering\<close>

text \<open>
  Claim C8. For every analyst record the persona is exactly the text
  "Name: {name}\<newline>Role: {role}\<newline>Affiliation: {affiliation}\<newline>Description: {description}\<newline>"
  with the record's four fields substituted. The rendering is a function of the four
  fields alone (the second conjunct builds the record from its fields), so equal
  fields give the same characters and two renderings of one record are equal.
\<close>

theorem persona_rendering:
  "persona a =
     ''Name: '' @ name a @ ''\<newline>'' @ ''Role: '' @ role a @ ''\<newline>'' @
     ''Affiliation: '' @ affiliation a @ ''\<newline>'' @
     ''Description: '' @ description a @ ''\<newline>''
   \<and> persona \<lparr>affiliation = f, name = n, role = r, description = d\<rparr> =
     ''Name: '' @ n @ ''\<newline>'' @ ''Role: '' @ r @ ''\<newline>'' @
     ''Affiliation: '' @ f @ ''\<newline>'' @ ''Description: '' @ d @ ''\<newline>''"
  by (simp add: persona_def)

section \<open>Filename sanitisation\<close>

text \<open>
  Claim C9, as the code has it. For every input string and every \<open>max_length\<close> the
  result holds only characters that are alphanumeric, underscore or hyphen, and no
  space (every space has become an underscore before the filter runs). When
  \<open>max_length\<close> is not negative, the result is the first \<open>max_length\<close> characters of
  the filtered text, its length is at most \<open>max_length\<close>, and a second application
  with the same \<open>max_length\<close> returns it unchanged.
\<close>

theorem sanitize_filename_safe_bounded_idempotent:
  "(\<forall>c \<in> set (sanitize_filename isalnum filename max_length).
      (isalnum c \<or> c = CHR ''_'' \<or> c = CHR ''-'') \<and> c \<noteq> CHR '' '')
   \<and> (0 \<le> max_length \<longrightarrow>
        sanitize_filename isalnum filename max_length =
          take (nat max_length)
            (filter (\<lambda>c. isalnum c \<or> c = CHR ''_'' \<or> c = CHR ''-'')
               (map (\<lambda>c. if c = CHR '' '' then CHR ''_'' else c) filename))
      \<and> int (length (sanitize_filename isalnum filename max_length)) \<le> max_length
      \<and> sanitize_filename isalnum (sanitize_filename isalnum filename max_length) max_length =
          sanitize_filename isalnum filename max_length)"
proof -
  let ?out = "sanitize_filename isalnum filename max_length"
  have chars: "\<forall>c \<in> set ?out. (isalnum c \<or> c = CHR ''_'' \<or> c = CHR ''-'') \<and> c \<noteq> CHR '' ''"
    using sanitize_chars by blast
  have shape: "?out = take (nat max_length)
            (filter (\<lambda>c. isalnum c \<or> c = CHR ''_'' \<or> c = CHR ''-'')
               (map (\<lambda>c. if c = CHR '' '' then CHR ''_'' else c) filename))"
    if "0 \<le> max_length"
    using that by (simp add: sanitize_shape Let_def slice_to_def)
  have len: "int (length ?out) \<le> max_length" if "0 \<le> max_length"
    using that by (rule sanitize_length)
  have idem: "sanitize_filename isalnum ?out max_length = ?out" if "0 \<le> max_length"
    using chars len [OF that] by (rule sanitize_fixed)
  from chars shape len idem show ?thesis by blast
qed

text \<open>
  The theorem at the specification's example, \<^verbatim>\<open>sanitize_filename("AI & Robots: 2024!!")\<close>
  with the default \<open>max_length\<close> of 50.
\<close>

theorem sanitize_filename_witness:
  "(0::int) \<le> 50
   \<and> sanitize_filename ascii_isalnum ''AI & Robots: 2024!!'' 50 = ''AI__Robots_2024''
   \<and> list_all (\<lambda>c. (ascii_isalnum c \<or> c = CHR ''_'' \<or> c = CHR ''-'') \<and> c \<noteq> CHR '' '')
        ''AI__Robots_2024''
   \<and> int (length ''AI__Robots_2024'') \<le> 50
   \<and> sanitize_filename ascii_isalnum ''AI__Robots_2024'' 50 = ''AI__Robots_2024''"
proof -
  have e: "sanitize_filename ascii_isalnum ''AI & Robots: 2024!!'' 50 = ''AI__Robots_2024''"
    by (simp add: sanitize_shape ascii_isalnum_def slice_to_def)
  note T = sanitize_filename_safe_bounded_idempotent
      [of ascii_isalnum "''AI & Robots: 2024!!''" 50, unfolded e]
  have c1: "list_all (\<lambda>c. (ascii_isalnum c \<or> c = CHR ''_'' \<or> c = CHR ''-'') \<and> c \<noteq> CHR '' '')
        ''AI__Robots_2024''"
    unfolding list_all_iff by (rule T [THEN conjunct1])
  have nn: "(0::int) \<le> 50" by simp
  note U = T [THEN conjunct2, THEN mp, OF nn]
  have c2: "int (length ''AI__Robots_2024'') \<le> 50"
    by (rule U [THEN conjunct2, THEN conjunct1])
  have c3: "sanitize_filename ascii_isalnum ''AI__Robots_2024'' 50 = ''AI__Robots_2024''"
    by (rule U [THEN conjunct2, THEN conjunct2])
  from nn e c1 c2 c3 show ?thesis by (intro conjI)
qed

text \<open>
  With a negative \<open>max_length\<close> the slice \<^verbatim>\<open>safe_name[:max_length]\<close> counts from the end:
  \<^verbatim>\<open>sanitize_filename("abc", -1)\<close> is \<^verbatim>\<open>"ab"\<close>, longer than \<open>max_length\<close>, and a second
  application shortens it again to \<^verbatim>\<open>"a"\<close>.
\<close>

theorem sanitize_filename_negative_max_length:
  "sanitize_filename ascii_isalnum ''abc'' (- 1) = ''ab''
   \<and> \<not> int (length (sanitize_filename ascii_isalnum ''abc'' (- 1))) \<le> - 1
   \<and> sanitize_filename ascii_isalnum (sanitize_filename ascii_isalnum ''abc'' (- 1)) (- 1) = ''a''
   \<and> sanitize_filename ascii_isalnum (sanitize_filename ascii_isalnum ''abc'' (- 1)) (- 1)
       \<noteq> sanitize_filename ascii_isalnum ''abc'' (- 1)"
  by (simp add: sanitize_shape ascii_isalnum_def slice_to_def)

section \<open>Claim C3: the report compiler\<close>

text \<open>
  On the example of the specification the code gives the report the specification
  states: the heading is stripped and the sources are moved to the tail.
\<close>

lemma compile_report_example:
  "compile_report ''I.'' ''## Insights\<newline>Body\<newline>## Sources\<newline>Src1'' ''C.'' =
     ''I.\<newline>\<newline>---\<newline>\<newline>Body\<newline>\<newline>---\<newline>\<newline>C.\<newline>\<newline>## Sources\<newline>Src1''"
  by (simp add: compile_report_def replace_def strip_def isspace_def split1_def)

text \<open>
  Claim C3. The report compiler strips a leading "## Insights" heading and the
  surrounding whitespace. The code tests \<^verbatim>\<open>content.startswith("## Insights")\<close>, so it aims
  at the leading heading, but then calls \<^verbatim>\<open>content.replace("## Insights", "")\<close> without a
  count, which deletes every occurrence. On the content "## Insights\<newline>A ## Insights B"
  the code therefore also deletes the second occurrence, inside the body, and the report
  holds "A  B" (two spaces), where stripping the leading heading, as the claim says and
  as \<open>compile_report_spec\<close> does, keeps the body "A ## Insights B".
\<close>

theorem compile_report_removes_every_heading:
  "compile_report ''I.'' ''## Insights\<newline>A ## Insights B'' ''C.'' =
     ''I.\<newline>\<newline>---\<newline>\<newline>A  B\<newline>\<newline>---\<newline>\<newline>C.''
   \<and> compile_report_spec ''I.'' ''## Insights\<newline>A ## Insights B'' ''C.'' =
     ''I.\<newline>\<newline>---\<newline>\<newline>A ## Insights B\<newline>\<newline>---\<newline>\<newline>C.''
   \<and> compile_report ''I.'' ''## Insights\<newline>A ## Insights B'' ''C.'' \<noteq>
     compile_report_spec ''I.'' ''## Insights\<newline>A ## Insights B'' ''C.''"
proof -
  have code: "compile_report ''I.'' ''## Insights\<newline>A ## Insights B'' ''C.'' =
     ''I.\<newline>\<newline>---\<newline>\<newline>A  B\<newline>\<newline>---\<newline>\<newline>C.''"
    by (simp add: compile_report_def replace_def strip_def isspace_def split1_def)
  have spec: "compile_report_spec ''I.'' ''## Insights\<newline>A ## Insights B'' ''C.'' =
     ''I.\<newline>\<newline>---\<newline>\<newline>A ## Insights B\<newline>\<newline>---\<newline>\<newline>C.''"
    by (simp add: compile_report_spec_def strip_def isspace_def split1_def)
  show ?thesis unfolding code spec by simp
qed

section \<open>Claim C4: the interview stops at the closing phrase\<close>

text \<open>
  Claim C4. When a generated question contains the phrase "Thank you so much for your
  help", the interview loop stops at once: that turn issues the question call only, no
  search query, no search and no expert answer, and no later turn runs however many
  turns are left. The function goes straight to writing the section, from the context
  accumulated by the turns before the closing question, and returns what the section
  writer gives. The first conjunct is the turn itself; the second reads it off the call
  trace of \<^verbatim>\<open>conduct_interview\<close>: whatever follows a closing question in the trace is the
  single section call.
\<close>


theorem interview_stops_at_thanks:
  assumes thanks: "contains ''Thank you so much for your help'' (msg_content q)"
  shows "(generate_question S P a messages = Inr q \<longrightarrow>
            interview_loop S P a (Suc n) messages context =
              ([QuestionCall (Inr q)], Inr (messages @ [q], context)))
       \<and> (fst (conduct_interview S P a topic max_turns) = pre @ QuestionCall (Inr q) # rest \<longrightarrow>
            rest = [SectionCall (contexts_of pre) (write_section S P a (contexts_of pre))]
            \<and> snd (conduct_interview S P a topic max_turns) =
                write_section S P a (contexts_of pre))"
proof (intro conjI impI)
  assume "generate_question S P a messages = Inr q"
  with thanks show "interview_loop S P a (Suc n) messages context =
      ([QuestionCall (Inr q)], Inr (messages @ [q], context))"
    by simp
next
  let ?start = "[HumanMessage (''So you said you were writing an article on '' @ topic @ ''?'')]"
  assume trace: "fst (conduct_interview S P a topic max_turns) = pre @ QuestionCall (Inr q) # rest"
  obtain calls r where loop: "interview_loop S P a (nat max_turns) ?start [] = (calls, r)"
    by (cases "interview_loop S P a (nat max_turns) ?start []")
  have both: "rest = [SectionCall (contexts_of pre) (write_section S P a (contexts_of pre))]
      \<and> snd (conduct_interview S P a topic max_turns) = write_section S P a (contexts_of pre)"
  proof (cases r)
    case (Inl e)
    with loop trace have "calls = pre @ QuestionCall (Inr q) # rest"
      by (simp add: conduct_interview_def)
    from interview_loop_stops [OF loop this thanks] Inl show ?thesis by simp
  next
    case (Inr final)
    obtain msgs ctx where final: "final = (msgs, ctx)" by (cases final)
    from loop Inr final
    have ci: "conduct_interview S P a topic max_turns =
        (calls @ [SectionCall ctx (write_section S P a ctx)], write_section S P a ctx)"
      by (simp add: conduct_interview_def)
    with trace have "calls @ [SectionCall ctx (write_section S P a ctx)] =
        pre @ QuestionCall (Inr q) # rest"
      by simp
    then have "\<exists>rest'. rest = rest' @ [SectionCall ctx (write_section S P a ctx)]
        \<and> calls = pre @ QuestionCall (Inr q) # rest'"
      by (rule snoc_eq_append_Cons) simp
    then obtain rest' where rest: "rest = rest' @ [SectionCall ctx (write_section S P a ctx)]"
      and calls: "calls = pre @ QuestionCall (Inr q) # rest'"
      by (elim exE conjE)
    from interview_loop_stops [OF loop calls thanks] Inr final
    have "rest' = []" and "ctx = contexts_of pre" by simp_all
    with rest ci show ?thesis by simp
  qed
  from both show "rest = [SectionCall (contexts_of pre) (write_section S P a (contexts_of pre))]"
    by (rule conjunct1)
  from both show "snd (conduct_interview S P a topic max_turns) =
      write_section S P a (contexts_of pre)"
    by (rule conjunct2)
qed

text \<open>
  The theorem at the concrete run with five turns allowed: the second question thanks
  the expert, and the section call follows it directly.
\<close>

theorem interview_stops_at_thanks_witness:
  "contains ''Thank you so much for your help'' (msg_content demo_thanks)
   \<and> fst (conduct_interview demo_services demo_prompts (demo_analyst ''Ada'' ''AI'') ''T'' 5) =
       [QuestionCall (Inr demo_question), QueryCall (Inr ''news''),
        SearchCall ''news'' [[(''url'', ''u''), (''content'', ''c'')]],
        AnswerCall demo_document (Inr demo_answer)] @
       QuestionCall (Inr demo_thanks) # [SectionCall [demo_document] (Inr ''## AI'')]
   \<and> [SectionCall [demo_document] (Inr ''## AI'')] =
       [SectionCall [demo_document]
          (write_section demo_services demo_prompts (demo_analyst ''Ada'' ''AI'') [demo_document])]
   \<and> snd (conduct_interview demo_services demo_prompts (demo_analyst ''Ada'' ''AI'') ''T'' 5) =
       write_section demo_services demo_prompts (demo_analyst ''Ada'' ''AI'') [demo_document]"
proof -
  let ?pre = "[QuestionCall (Inr demo_question), QueryCall (Inr ''news''),
        SearchCall ''news'' [[(''url'', ''u''), (''content'', ''c'')]],
        AnswerCall demo_document (Inr demo_answer)]"
  have thanks: "contains ''Thank you so much for your help'' (msg_content demo_thanks)"
    by (simp add: demo_thanks_def)
  have trace: "fst (conduct_interview demo_services demo_prompts (demo_analyst ''Ada'' ''AI'') ''T'' 5) =
       ?pre @ QuestionCall (Inr demo_thanks) # [SectionCall [demo_document] (Inr ''## AI'')]"
    by (simp only: demo_interview fst_conv)
  have ctx: "contexts_of ?pre = [demo_document]" by simp
  note stop = interview_stops_at_thanks [OF thanks, THEN conjunct2, THEN mp, OF trace,
      unfolded ctx]
  from thanks trace stop show ?thesis by (intro conjI) simp_all
qed

section \<open>Claim C5: a failing search does not end the interview\<close>



section \<open>Claim C6: the progress values of a sequential run\<close>



section \<open>Claim C10: the entries of the sequential interview loop\<close>

text \<open>
  Claim C10. The sections returned by the sequential \<^verbatim>\<open>_conduct_interviews\<close> are the
  entries of the rounds of its loop, in analyst order. When \<^verbatim>\<open>on_interview_complete\<close> and
  \<^verbatim>\<open>on_section_complete\<close> never raise, every round appends exactly one entry: the list
  has one entry per analyst, the entry at an index is the section the interview of that
  analyst returned or an error placeholder for that analyst, and, when the progress
  callback does not raise either, it is the section of a successful interview and the
  placeholder with the exception text of a failing one. When the interview of an analyst
  returns a section and one of the two callbacks then raises, the handler appends the
  placeholder after the section already appended: that analyst contributes two entries,
  and the list is longer than the analyst list.
\<close>

theorem sequential_sections_per_analyst:
  "snd (conduct_interviews S P analysts topic max_turns callbacks) =
     concat (map (\<lambda>i. snd (interview_round S P callbacks topic max_turns (length analysts) i
                           (analysts ! i)))
               [0..<length analysts])
   \<and> ((\<forall>f who section. on_interview_complete callbacks = Some f \<longrightarrow> f who section = Inr ())
        \<and> (\<forall>f section. on_section_complete callbacks = Some f \<longrightarrow> f section = Inr ()) \<longrightarrow>
        length (snd (conduct_interviews S P analysts topic max_turns callbacks)) = length analysts
        \<and> (\<forall>i<length analysts.
              (\<exists>e. snd (conduct_interviews S P analysts topic max_turns callbacks) ! i =
                     error_section (analysts ! i) e)
              \<or> snd (conduct_interview S P (analysts ! i) topic max_turns) =
                  Inr (snd (conduct_interviews S P analysts topic max_turns callbacks) ! i))
        \<and> ((\<forall>f progress msg. on_progress callbacks = Some f \<longrightarrow> f progress msg = Inr ()) \<longrightarrow>
              snd (conduct_interviews S P analysts topic max_turns callbacks) =
                map (\<lambda>analyst. case snd (conduct_interview S P analyst topic max_turns) of
                                  Inl e \<Rightarrow> error_section analyst e
                                | Inr section \<Rightarrow> section)
                  analysts))
   \<and> (\<forall>i<length analysts. \<forall>section e.
         (\<forall>f progress msg. on_progress callbacks = Some f \<longrightarrow> f progress msg = Inr ())
         \<and> snd (conduct_interview S P (analysts ! i) topic max_turns) = Inr section
         \<and> ((\<exists>f. on_interview_complete callbacks = Some f
                   \<and> f (name (analysts ! i)) section = Inl e)
              \<or> ((\<forall>f. on_interview_complete callbacks = Some f \<longrightarrow>
                        f (name (analysts ! i)) section = Inr ())
                  \<and> (\<exists>f. on_section_complete callbacks = Some f \<and> f section = Inl e))) \<longrightarrow>
         snd (interview_round S P callbacks topic max_turns (length analysts) i (analysts ! i)) =
           [section, error_section (analysts ! i) e]
         \<and> length analysts <
             length (snd (conduct_interviews S P analysts topic max_turns callbacks)))"
proof (intro conjI impI allI)
  let ?round = "\<lambda>i. snd (interview_round S P callbacks topic max_turns (length analysts) i
                           (analysts ! i))"
  let ?sections = "snd (conduct_interviews S P analysts topic max_turns callbacks)"
  show shape: "?sections = concat (map ?round [0..<length analysts])"
    by (rule conduct_interviews_sections)
  {
    assume quiet: "(\<forall>f who section. on_interview_complete callbacks = Some f \<longrightarrow> f who section = Inr ())
        \<and> (\<forall>f section. on_section_complete callbacks = Some f \<longrightarrow> f section = Inr ())"
    then have ic: "\<forall>f who section. on_interview_complete callbacks = Some f \<longrightarrow> f who section = Inr ()"
      and sc: "\<forall>f section. on_section_complete callbacks = Some f \<longrightarrow> f section = Inr ()"
      by (rule conjunct1, rule conjunct2)
    have single: "\<exists>entry. ?round i = [entry]
           \<and> ((\<exists>e. entry = error_section (analysts ! i) e)
                \<or> snd (conduct_interview S P (analysts ! i) topic max_turns) = Inr entry)" for i
      using ic sc by (rule interview_round_single)
    then have "\<forall>i<length analysts. \<exists>x. ?round i = [x]" by blast
    then have len: "length (concat (map ?round [0..<length analysts])) = length analysts"
      and nth: "\<forall>i<length analysts. ?round i = [concat (map ?round [0..<length analysts]) ! i]"
      using concat_singletons [of "length analysts" ?round] by simp_all
    from len show "length ?sections = length analysts"
      unfolding shape .
    {
      fix i
      assume i: "i < length analysts"
      with nth have "?round i = [?sections ! i]"
        unfolding shape by simp
      with single [of i]
      show "(\<exists>e. ?sections ! i = error_section (analysts ! i) e)
          \<or> snd (conduct_interview S P (analysts ! i) topic max_turns) = Inr (?sections ! i)"
        by simp
    }
    {
      assume progress: "\<forall>f progress msg. on_progress callbacks = Some f \<longrightarrow> f progress msg = Inr ()"
      have "?round i = [case snd (conduct_interview S P (analysts ! i) topic max_turns) of
              Inl e \<Rightarrow> error_section (analysts ! i) e
            | Inr section \<Rightarrow> section]" for i
        using progress ic sc by (rule interview_round_quiet)
      then show "?sections =
                map (\<lambda>analyst. case snd (conduct_interview S P analyst topic max_turns) of
                                  Inl e \<Rightarrow> error_section analyst e
                                | Inr section \<Rightarrow> section)
                  analysts"
        unfolding shape
        using map_via_nth
          [of "\<lambda>analyst. case snd (conduct_interview S P analyst topic max_turns) of
                            Inl e \<Rightarrow> error_section analyst e
                          | Inr section \<Rightarrow> section" analysts]
        by (simp add: concat_map_singleton)
    }
  }
  {
    fix i sec e
    assume i: "i < length analysts"
    assume "(\<forall>f progress msg. on_progress callbacks = Some f \<longrightarrow> f progress msg = Inr ())
         \<and> snd (conduct_interview S P (analysts ! i) topic max_turns) = Inr sec
         \<and> ((\<exists>f. on_interview_complete callbacks = Some f
                   \<and> f (name (analysts ! i)) sec = Inl e)
              \<or> ((\<forall>f. on_interview_complete callbacks = Some f \<longrightarrow>
                        f (name (analysts ! i)) sec = Inr ())
                  \<and> (\<exists>f. on_section_complete callbacks = Some f \<and> f sec = Inl e)))"
    then have progress: "\<forall>f progress msg. on_progress callbacks = Some f \<longrightarrow> f progress msg = Inr ()"
      and interview: "snd (conduct_interview S P (analysts ! i) topic max_turns) = Inr sec"
      and raises: "(\<exists>f. on_interview_complete callbacks = Some f
                   \<and> f (name (analysts ! i)) sec = Inl e)
              \<or> ((\<forall>f. on_interview_complete callbacks = Some f \<longrightarrow>
                        f (name (analysts ! i)) sec = Inr ())
                  \<and> (\<exists>f. on_section_complete callbacks = Some f \<and> f sec = Inl e))"
      by (rule conjunct1, rule conjunct2 [THEN conjunct1], rule conjunct2 [THEN conjunct2])
    from progress interview raises
    show double: "?round i = [sec, error_section (analysts ! i) e]"
      by (rule interview_round_double)
    have "length analysts < length (concat (map ?round [0..<length analysts]))"
    proof (rule concat_longer [where k = i])
      show "\<forall>j<length analysts. 1 \<le> length (?round j)"
        by (intro allI impI) (rule interview_round_nonempty)
      show "i < length analysts" by (rule i)
      show "2 \<le> length (?round i)" unfolding double by simp
    qed
    then show "length analysts < length ?sections"
      unfolding shape .
  }
qed

text \<open>
  The theorem at the team of two: with callbacks that return, the section of Ada and the
  placeholder for Bob; with an \<^verbatim>\<open>on_interview_complete\<close> that raises "ui", the round of
  Ada appends her section and a placeholder, and the list has more than two entries.
\<close>

theorem sequential_sections_per_analyst_witness:
  "snd (conduct_interviews demo_team demo_prompts
          [demo_analyst ''Ada'' ''AI'', demo_analyst ''Bob'' ''broken''] ''T'' 2 demo_callbacks) =
     [''## AI'', ''## Error\<newline>Interview with Bob failed: boom'']
   \<and> length (snd (conduct_interviews demo_team demo_prompts
          [demo_analyst ''Ada'' ''AI'', demo_analyst ''Bob'' ''broken''] ''T'' 2 demo_callbacks)) = 2
   \<and> snd (conduct_interview demo_team demo_prompts (demo_analyst ''Ada'' ''AI'') ''T'' 2) =
       Inr ''## AI''
   \<and> on_interview_complete demo_callbacks_raising =
       Some (\<lambda>who section. Inl (Exception ''ui''))
   \<and> snd (interview_round demo_team demo_prompts demo_callbacks_raising ''T'' 2 2 0
            (demo_analyst ''Ada'' ''AI'')) =
       [''## AI'', ''## Error\<newline>Interview with Ada failed: ui'']
   \<and> 2 < length (snd (conduct_interviews demo_team demo_prompts
          [demo_analyst ''Ada'' ''AI'', demo_analyst ''Bob'' ''broken''] ''T'' 2
          demo_callbacks_raising))"
proof -
  let ?team = "[demo_analyst ''Ada'' ''AI'', demo_analyst ''Bob'' ''broken'']"
  note quiet = sequential_sections_per_analyst
    [of demo_team demo_prompts ?team "''T''" 2 demo_callbacks,
     THEN conjunct2, THEN conjunct1, THEN mp,
     OF conjI [OF demo_callbacks_quiet(2) demo_callbacks_quiet(3)]]
  from quiet have len: "length (snd (conduct_interviews demo_team demo_prompts ?team ''T'' 2
      demo_callbacks)) = 2"
    by simp
  from quiet [THEN conjunct2, THEN conjunct2, THEN mp, OF demo_callbacks_quiet(1)]
  have sections: "snd (conduct_interviews demo_team demo_prompts ?team ''T'' 2 demo_callbacks) =
      [''## AI'', ''## Error\<newline>Interview with Bob failed: boom'']"
    by (simp add: demo_team_interviews error_section_def demo_analyst_fields)
  have handler: "on_interview_complete demo_callbacks_raising =
      Some (\<lambda>who section. Inl (Exception ''ui''))"
    by (simp add: demo_callbacks_raising_def)
  have raises: "(\<forall>f progress msg. on_progress demo_callbacks_raising = Some f \<longrightarrow>
                    f progress msg = Inr ())
      \<and> snd (conduct_interview demo_team demo_prompts (?team ! 0) ''T'' 2) = Inr ''## AI''
      \<and> ((\<exists>f. on_interview_complete demo_callbacks_raising = Some f
                \<and> f (name (?team ! 0)) ''## AI'' = Inl (Exception ''ui''))
           \<or> ((\<forall>f. on_interview_complete demo_callbacks_raising = Some f \<longrightarrow>
                     f (name (?team ! 0)) ''## AI'' = Inr ())
               \<and> (\<exists>f. on_section_complete demo_callbacks_raising = Some f
                       \<and> f ''## AI'' = Inl (Exception ''ui''))))"
    using demo_callbacks_raising_progress
    by (simp add: demo_team_interviews handler)
  have first: "0 < length ?team" by simp
  note noisy = sequential_sections_per_analyst
    [of demo_team demo_prompts ?team "''T''" 2 demo_callbacks_raising,
     THEN conjunct2, THEN conjunct2, THEN spec, THEN mp, OF first, THEN spec, THEN spec,
     THEN mp, OF raises]
  from noisy have double: "snd (interview_round demo_team demo_prompts demo_callbacks_raising
      ''T'' 2 2 0 (demo_analyst ''Ada'' ''AI'')) =
      [''## AI'', ''## Error\<newline>Interview with Ada failed: ui'']"
    by (simp add: error_section_def demo_analyst_fields numeral_2_eq_2)
  from noisy have longer: "2 < length (snd (conduct_interviews demo_team demo_prompts ?team
      ''T'' 2 demo_callbacks_raising))"
    by (simp add: numeral_2_eq_2)
  from sections len demo_team_interviews(1) handler double longer show ?thesis
    by (intro conjI)
qed

section \<open>Claim C1: a failed interview leaves a placeholder\<close>



section \<open>Claim C2: the parallel workflow keeps sections and analysts aligned\<close>

text \<open>
  Claim C2. The interviews of the parallel workflow complete in some order, given as
  the list of the indices of the futures as \<^verbatim>\<open>as_completed\<close> yields them; every future is
  yielded, so every index below the number N of analysts occurs in it. For every such
  order, every list of analysts and any callbacks, raising or not,
  \<^verbatim>\<open>_conduct_interviews\<close> returns N sections, and the section at index i is the section
  that the interview of analyst i returned or an error placeholder for analyst i. When
  the progress and interview callbacks do not raise, it is the section of a successful
  interview and the placeholder with the exception text of a failing one. For a run that
  returns its results, \<^verbatim>\<open>results.sections[i]\<close> is in that way the section of
  \<^verbatim>\<open>results.analysts[i]\<close>, for every i below N.
\<close>

theorem parallel_sections_aligned:
  "(set order = {..<length analysts} \<longrightarrow>
      (\<exists>sections.
         snd (parallel_conduct_interviews order S P analysts topic max_turns callbacks) =
           Inr sections
         \<and> length sections = length analysts
         \<and> (\<forall>i<length analysts.
               (\<exists>e. sections ! i = error_section (analysts ! i) e)
               \<or> snd (conduct_interview S P (analysts ! i) topic max_turns) =
                   Inr (sections ! i))
         \<and> ((\<forall>f progress msg. on_progress callbacks = Some f \<longrightarrow> f progress msg = Inr ())
              \<and> (\<forall>f who section. on_interview_complete callbacks = Some f \<longrightarrow>
                     f who section = Inr ()) \<longrightarrow>
              sections =
                map (\<lambda>analyst. case snd (conduct_interview S P analyst topic max_turns) of
                                  Inl e \<Rightarrow> error_section analyst e
                                | Inr section \<Rightarrow> section)
                  analysts)))
   \<and> (snd (parallel_run_research order S P config callbacks) = Inr results
        \<and> set order = {..<length (results_analysts results)} \<longrightarrow>
        length (results_sections results) = length (results_analysts results)
        \<and> (\<forall>i<length (results_analysts results).
              (\<exists>e. results_sections results ! i =
                     error_section (results_analysts results ! i) e)
              \<or> snd (conduct_interview S P (results_analysts results ! i)
                        (config_topic config) (config_max_turns config)) =
                  Inr (results_sections results ! i)))"
proof (intro conjI impI)
  assume every: "set order = {..<length analysts}"
  from parallel_conduct_interviews_aligned [OF every, of S P topic max_turns callbacks]
  obtain sections where
    result: "snd (parallel_conduct_interviews order S P analysts topic max_turns callbacks) =
      Inr sections"
    and len: "length sections = length analysts"
    and aligned: "\<forall>i<length analysts.
               (\<exists>e. sections ! i = error_section (analysts ! i) e)
               \<or> snd (conduct_interview S P (analysts ! i) topic max_turns) =
                   Inr (sections ! i)"
    by blast
  have quiet: "sections =
                map (\<lambda>analyst. case snd (conduct_interview S P analyst topic max_turns) of
                                  Inl e \<Rightarrow> error_section analyst e
                                | Inr section \<Rightarrow> section)
                  analysts"
    if "(\<forall>f progress msg. on_progress callbacks = Some f \<longrightarrow> f progress msg = Inr ())
              \<and> (\<forall>f who section. on_interview_complete callbacks = Some f \<longrightarrow>
                     f who section = Inr ())"
    using parallel_conduct_interviews_quiet
      [OF that [THEN conjunct1] that [THEN conjunct2] every, of S P topic max_turns] result
    by simp
  from result len aligned quiet
  show "\<exists>sections.
         snd (parallel_conduct_interviews order S P analysts topic max_turns callbacks) =
           Inr sections
         \<and> length sections = length analysts
         \<and> (\<forall>i<length analysts.
               (\<exists>e. sections ! i = error_section (analysts ! i) e)
               \<or> snd (conduct_interview S P (analysts ! i) topic max_turns) =
                   Inr (sections ! i))
         \<and> ((\<forall>f progress msg. on_progress callbacks = Some f \<longrightarrow> f progress msg = Inr ())
              \<and> (\<forall>f who section. on_interview_complete callbacks = Some f \<longrightarrow>
                     f who section = Inr ()) \<longrightarrow>
              sections =
                map (\<lambda>analyst. case snd (conduct_interview S P analyst topic max_turns) of
                                  Inl e \<Rightarrow> error_section analyst e
                                | Inr section \<Rightarrow> section)
                  analysts)"
    by blast
next
  assume run: "snd (parallel_run_research order S P config callbacks) = Inr results
        \<and> set order = {..<length (results_analysts results)}"
  then have "snd (run_research_with (parallel_conduct_interviews order S P) S P config
      callbacks) = Inr results"
    by (simp add: parallel_run_research_def)
  then have interviews: "snd (parallel_conduct_interviews order S P (results_analysts results)
      (config_topic config) (config_max_turns config) callbacks) =
      Inr (results_sections results)"
    by (rule run_research_with_results [THEN conjunct1])
  from run have every: "set order = {..<length (results_analysts results)}"
    by (rule conjunct2)
  from parallel_conduct_interviews_aligned
    [OF every, of S P "config_topic config" "config_max_turns config" callbacks]
    interviews
  have "length (results_sections results) = length (results_analysts results)
        \<and> (\<forall>i<length (results_analysts results).
              (\<exists>e. results_sections results ! i =
                     error_section (results_analysts results ! i) e)
              \<or> snd (conduct_interview S P (results_analysts results ! i)
                        (config_topic config) (config_max_turns config)) =
                  Inr (results_sections results ! i))"
    by auto
  then show "length (results_sections results) = length (results_analysts results)"
    and "\<forall>i<length (results_analysts results).
              (\<exists>e. results_sections results ! i =
                     error_section (results_analysts results ! i) e)
              \<or> snd (conduct_interview S P (results_analysts results ! i)
                        (config_topic config) (config_max_turns config)) =
                  Inr (results_sections results ! i)"
    by (rule conjunct1, rule conjunct2)
qed

text \<open>
  The theorem at the team of two when the interview of Bob completes first: the section
  of Ada is at index 0 and the placeholder for Bob at index 1.
\<close>

theorem parallel_sections_aligned_witness:
  "set [1, 0] = {..<length [demo_analyst ''Ada'' ''AI'', demo_analyst ''Bob'' ''broken'']}
   \<and> snd (parallel_conduct_interviews [1, 0] demo_team demo_prompts
            [demo_analyst ''Ada'' ''AI'', demo_analyst ''Bob'' ''broken''] ''T'' 2
            demo_callbacks) =
       Inr [''## AI'', ''## Error\<newline>Interview with Bob failed: boom'']
   \<and> snd (parallel_run_research [1, 0] demo_team demo_prompts demo_config demo_callbacks) =
       Inr demo_results
   \<and> set [1, 0] = {..<length (results_analysts demo_results)}
   \<and> length (results_sections demo_results) = length (results_analysts demo_results)
   \<and> results_sections demo_results ! 1 =
       error_section (results_analysts demo_results ! 1) (Exception ''boom'')
   \<and> snd (conduct_interview demo_team demo_prompts (results_analysts demo_results ! 0)
            (config_topic demo_config) (config_max_turns demo_config)) =
       Inr (results_sections demo_results ! 0)"
proof -
  let ?team = "[demo_analyst ''Ada'' ''AI'', demo_analyst ''Bob'' ''broken'']"
  have every: "set [1, 0] = {..<length (results_analysts demo_results)}"
    using demo_order by (simp add: demo_results_def)
  from parallel_sections_aligned
    [of "[1, 0]" ?team demo_team demo_prompts "''T''" 2 demo_callbacks,
     THEN conjunct1, THEN mp, OF demo_order]
  obtain sections where
    result: "snd (parallel_conduct_interviews [1, 0] demo_team demo_prompts ?team ''T'' 2
      demo_callbacks) = Inr sections"
    and quiet: "(\<forall>f progress msg. on_progress demo_callbacks = Some f \<longrightarrow> f progress msg = Inr ())
              \<and> (\<forall>f who section. on_interview_complete demo_callbacks = Some f \<longrightarrow>
                     f who section = Inr ()) \<longrightarrow>
              sections =
                map (\<lambda>analyst. case snd (conduct_interview demo_team demo_prompts analyst ''T'' 2) of
                                  Inl e \<Rightarrow> error_section analyst e
                                | Inr section \<Rightarrow> section)
                  ?team"
    by blast
  from quiet [THEN mp, OF conjI [OF demo_callbacks_quiet(1) demo_callbacks_quiet(2)]]
  have "sections = [''## AI'', ''## Error\<newline>Interview with Bob failed: boom'']"
    unfolding demo_entries .
  with result have sections: "snd (parallel_conduct_interviews [1, 0] demo_team demo_prompts
      ?team ''T'' 2 demo_callbacks) =
      Inr [''## AI'', ''## Error\<newline>Interview with Bob failed: boom'']"
    by simp
  note run = parallel_sections_aligned
    [where order = "[1, 0]" and S = demo_team and P = demo_prompts and config = demo_config
       and callbacks = demo_callbacks and results = demo_results,
     THEN conjunct2, THEN mp, OF conjI [OF demo_parallel_run every]]
  from run have len: "length (results_sections demo_results) =
      length (results_analysts demo_results)"
    by (rule conjunct1)
  have bob: "results_sections demo_results ! 1 =
       error_section (results_analysts demo_results ! 1) (Exception ''boom'')"
    by (simp add: demo_results_def error_section_def demo_analyst_fields)
  have ada: "snd (conduct_interview demo_team demo_prompts (results_analysts demo_results ! 0)
            (config_topic demo_config) (config_max_turns demo_config)) =
       Inr (results_sections demo_results ! 0)"
    by (simp add: demo_results_def demo_config_def demo_team_interviews)
  from demo_order sections demo_parallel_run every len bob ada show ?thesis
    by (intro conjI)
qed

section \<open>Claim C7: the lists handed back by the parallel workflow\<close>




end
